theory Spec2Isabelle
  imports Main "HOL-Library.Char_ord" "HOL-Library.List_Lexorder"
begin

section \<open>RouteDash order lifecycle and restaurant analytics\<close>

text \<open>
  A shallow embedding of the server's order service (\<^verbatim>\<open>orderService.ts\<close>) and analytics
  service (\<^verbatim>\<open>analyticsService.ts\<close>, and the analytics function of the dashboard variant of
  the order service).  The persistent store behind Prisma is a record of tables, each table
  a list of rows; every service function takes the store and returns its result together
  with the store it leaves behind.  A thrown \<^verbatim>\<open>HttpError\<close> (or a JavaScript
  \<^verbatim>\<open>TypeError\<close>) is the \<open>Inl\<close> branch of the result.

  JavaScript numbers that hold integers (cents, quantities, counts, epoch milliseconds) are
  modelled by \<open>int\<close>; this is exact inside the safe-integer range \<open>\<plusminus>2^53\<close>, which the
  database's 32-bit integer columns stay well within for sums of realistic size.  The two
  places where the source leaves the integers (\<^verbatim>\<open>subtotal * 0.0825\<close> and
  \<^verbatim>\<open>revenue / count\<close>) are modelled by the binary64 rounding of their exact results,
  below.  Definitions keep the names of the source; the field \<^verbatim>\<open>id\<close> of a row is
  \<open>order_id\<close>, \<open>restaurant_id\<close> or \<open>menuItem_id\<close> here, and fields that two types of the
  source share carry a prefix.
\<close>

subsection \<open>Data model\<close>

datatype OrderStatus = PENDING | PREPARING | READY | COMPLETED | CANCELED

datatype error = HttpError nat string | TypeError

text \<open>
  An order item as the queries return it: its own columns and the name of the menu item it
  refers to (every query that reads items includes \<^verbatim>\<open>menuItem: { select: { name } }\<close>; the
  relation is required, so the join always yields a name).
\<close>

record OrderItem =
  menuItemId :: string
  quantity :: int
  priceCents :: int
  menuItemName :: string

record Order =
  order_id :: string
  customerId :: string
  restaurantId :: string
  status :: OrderStatus
  pickupEtaMin :: int
  routeOrigin :: string
  routeDestination :: string
  totalCents :: int
  createdAt :: int
  items :: "OrderItem list"

record Restaurant =
  restaurant_id :: string
  isActive :: bool

record MenuItem =
  menuItem_id :: string
  menuItem_name :: string
  menuItem_restaurantId :: string
  menuItem_priceCents :: int
  isAvailable :: bool

record Db =
  restaurants :: "Restaurant list"
  menuItems :: "MenuItem list"
  orders :: "Order list"

text \<open>
  The object \<^verbatim>\<open>{ ...order, subtotalCents, taxCents }\<close> that \<^verbatim>\<open>attachFinancials\<close>
  returns: the order's own fields, kept together in \<open>order\<close>, and the two derived fields.
\<close>

record OrderWithFinancials =
  order :: Order
  subtotalCents :: int
  taxCents :: int

subsection \<open>Store access\<close>

definition order_findUnique :: "Db \<Rightarrow> string \<Rightarrow> Order option" where
  "order_findUnique db orderId = find (\<lambda>row. order_id row = orderId) (orders db)"

definition order_update :: "Db \<Rightarrow> string \<Rightarrow> (Order \<Rightarrow> Order) \<Rightarrow> Db" where
  "order_update db orderId upd =
     db\<lparr>orders := map (\<lambda>row. if order_id row = orderId then upd row else row) (orders db)\<rparr>"

subsection \<open>Derived financial fields\<close>

definition calculateSubtotal :: "OrderItem list \<Rightarrow> int" where
  "calculateSubtotal its = fold (\<lambda>item acc. acc + priceCents item * quantity item) its 0"

definition attachFinancials :: "Order \<Rightarrow> (int \<times> int) option \<Rightarrow> OrderWithFinancials" where
  "attachFinancials ord overrides =
     (let subtotal = (case overrides of Some ov \<Rightarrow> fst ov | None \<Rightarrow> calculateSubtotal (items ord));
          tax = (case overrides of Some ov \<Rightarrow> snd ov | None \<Rightarrow> max (totalCents ord - subtotal) 0)
      in \<lparr>order = ord, subtotalCents = subtotal, taxCents = tax\<rparr>)"

subsection \<open>Order status state machine\<close>

fun STATUS_TRANSITIONS :: "OrderStatus \<Rightarrow> OrderStatus list" where
  "STATUS_TRANSITIONS PENDING = [PREPARING, CANCELED]"
| "STATUS_TRANSITIONS PREPARING = [READY, CANCELED]"
| "STATUS_TRANSITIONS READY = [COMPLETED, CANCELED]"
| "STATUS_TRANSITIONS COMPLETED = []"
| "STATUS_TRANSITIONS CANCELED = []"

definition updateOrderStatusForRestaurant ::
  "Db \<Rightarrow> string \<Rightarrow> string \<Rightarrow> OrderStatus \<Rightarrow> (error + OrderWithFinancials) \<times> Db" where
  "updateOrderStatusForRestaurant db rid orderId nextStatus =
     (case order_findUnique db orderId of
        None \<Rightarrow> (Inl (HttpError 404 ''Order not found''), db)
      | Some ord \<Rightarrow>
          if restaurantId ord \<noteq> rid then (Inl (HttpError 404 ''Order not found''), db)
          else if status ord = nextStatus then (Inr (attachFinancials ord None), db)
          else if nextStatus \<notin> set (STATUS_TRANSITIONS (status ord))
            then (Inl (HttpError 400 ''Invalid status transition''), db)
          else (Inr (attachFinancials (ord\<lparr>status := nextStatus\<rparr>) None),
                order_update db orderId (\<lambda>row. row\<lparr>status := nextStatus\<rparr>)))"

text \<open>The transition table as the specification words it (section 4.3).\<close>

definition spec_allowed :: "OrderStatus \<Rightarrow> OrderStatus set" where
  "spec_allowed s =
     (if s = PENDING then {PREPARING, CANCELED}
      else if s = PREPARING then {READY, CANCELED}
      else if s = READY then {COMPLETED, CANCELED}
      else {})"

subsection \<open>JavaScript arrays, maps and sets\<close>

text \<open>
  \<^verbatim>\<open>Array.prototype.slice(start, end)\<close>: a negative index counts from the end, both
  indices are clamped to the array, an omitted \<^verbatim>\<open>end\<close> is the length.
\<close>

definition slice_index :: "nat \<Rightarrow> int \<Rightarrow> nat" where
  "slice_index len i = (if i < 0 then nat (max (int len + i) 0) else min (nat i) len)"

definition Array_slice :: "'a list \<Rightarrow> int \<Rightarrow> int option \<Rightarrow> 'a list" where
  "Array_slice xs start end =
     (let k = slice_index (length xs) start;
          final = (case end of None \<Rightarrow> length xs | Some e \<Rightarrow> slice_index (length xs) e)
      in take (final - k) (drop k xs))"

text \<open>
  A \<^verbatim>\<open>Map\<close> iterates in insertion order: an association list in which \<^verbatim>\<open>set\<close>
  replaces the value of a key that is present, in place, and appends a new key at the end.
  A \<^verbatim>\<open>Set\<close> likewise is a list without repetition.
\<close>

fun Map_get :: "('k \<times> 'v) list \<Rightarrow> 'k \<Rightarrow> 'v option" where
  "Map_get [] k = None"
| "Map_get ((k', v) # m) k = (if k' = k then Some v else Map_get m k)"

fun Map_set :: "('k \<times> 'v) list \<Rightarrow> 'k \<Rightarrow> 'v \<Rightarrow> ('k \<times> 'v) list" where
  "Map_set [] k v = [(k, v)]"
| "Map_set ((k', v') # m) k v = (if k' = k then (k, v) # m else (k', v') # Map_set m k v)"

definition Set_add :: "'a list \<Rightarrow> 'a \<Rightarrow> 'a list" where
  "Set_add s x = (if x \<in> set s then s else s @ [x])"

subsection \<open>JavaScript numbers outside the integers\<close>

text \<open>
  A binary64 value is written \<open>Double m k\<close>, standing for \<open>m * 2^k\<close>.  The function
  \<open>double_of_ratio p q\<close> is the binary64 nearest to the exact quotient \<open>p / q\<close> (for
  \<open>q > 0\<close>), ties to the even significand: what IEEE 754 division and multiplication
  return for their exact results.  Only the normal range is modelled (no overflow to
  infinity, no subnormals), which amounts of money never leave.
\<close>

datatype double = Double int int

function bit_length :: "int \<Rightarrow> int" where
  "bit_length n = (if n \<le> 0 then 0 else 1 + bit_length (n div 2))"
  by pat_completeness auto
termination
  by (relation "measure nat") auto

declare bit_length.simps [simp del]

definition pow2 :: "int \<Rightarrow> int" where
  "pow2 k = 2 ^ nat k"

text \<open>The integer nearest to \<open>num / den\<close>, a tie going to the even one.\<close>

definition round_half_even :: "int \<Rightarrow> int \<Rightarrow> int" where
  "round_half_even num den =
     (let fl = num div den;
          r = num mod den
      in if 2 * r < den then fl
         else if 2 * r > den then fl + 1
         else if even fl then fl else fl + 1)"

text \<open>The binary exponent of \<open>a / q\<close> (for positive \<open>a\<close> and \<open>q\<close>): \<open>\<lfloor>log\<^sub>2 (a / q)\<rfloor>\<close>.\<close>

definition binary_exponent :: "int \<Rightarrow> int \<Rightarrow> int" where
  "binary_exponent a q =
     (let e0 = bit_length a - bit_length q
      in if a * pow2 (- e0) \<ge> q * pow2 e0 then e0 else e0 - 1)"

definition double_of_ratio :: "int \<Rightarrow> int \<Rightarrow> double" where
  "double_of_ratio p q =
     (if p = 0 then Double 0 0
      else
        let e = binary_exponent \<bar>p\<bar> q;
            m = round_half_even (\<bar>p\<bar> * pow2 (52 - e)) (q * pow2 (e - 52))
        in Double (sgn p * m) (e - 52))"

text \<open>
  The quotient and the product of the source.  The source divides by a count of orders
  only, which is positive where the division is made.
\<close>

definition js_div :: "int \<Rightarrow> int \<Rightarrow> double" where
  "js_div a b = double_of_ratio (a * sgn b) \<bar>b\<bar>"

definition js_mul :: "int \<Rightarrow> double \<Rightarrow> double" where
  "js_mul a d = (case d of Double m k \<Rightarrow> double_of_ratio (a * m * pow2 k) (pow2 (- k)))"

text \<open>\<^verbatim>\<open>Math.round\<close>: the nearest integer, a tie going up: \<open>\<lfloor>x + 1/2\<rfloor>\<close>.\<close>

definition Math_round :: "double \<Rightarrow> int" where
  "Math_round d = (case d of Double m k \<Rightarrow> (2 * m * pow2 k + pow2 (- k)) div (2 * pow2 (- k)))"

text \<open>The literal \<^verbatim>\<open>0.0825\<close>: the binary64 nearest to 825/10000.\<close>

definition TAX_RATE :: double where
  "TAX_RATE = double_of_ratio 825 10000"

subsection \<open>Order creation\<close>

record OrderItemInput =
  req_menuItemId :: string
  req_quantity :: int

record CreateOrderInput =
  req_restaurantId :: string
  req_items :: "OrderItemInput list"
  req_pickupEtaMin :: int
  req_routeOrigin :: string
  req_routeDestination :: string

text \<open>
  What the database fills in when it inserts an order: the identifier, the creation time
  and the default of the status column (the schema is not part of the sources read here).
\<close>

record OrderDefaults =
  new_id :: string
  new_createdAt :: int
  new_status :: OrderStatus

definition restaurant_findUnique :: "Db \<Rightarrow> string \<Rightarrow> Restaurant option" where
  "restaurant_findUnique db rid = find (\<lambda>r. restaurant_id r = rid \<and> isActive r) (restaurants db)"

definition menuItem_findMany :: "Db \<Rightarrow> string list \<Rightarrow> string \<Rightarrow> MenuItem list" where
  "menuItem_findMany db ids rid =
     filter (\<lambda>m. menuItem_id m \<in> set ids \<and> menuItem_restaurantId m = rid \<and> isAvailable m)
       (menuItems db)"

text \<open>
  \<^verbatim>\<open>menuItems.find((i) => i.id === item.menuItemId)!\<close>: the non-null assertion is erased
  at run time, so reading a field of a missing result throws a \<^verbatim>\<open>TypeError\<close>.
\<close>

definition find_menuItem :: "MenuItem list \<Rightarrow> string \<Rightarrow> error + MenuItem" where
  "find_menuItem ms mid =
     (case find (\<lambda>i. menuItem_id i = mid) ms of None \<Rightarrow> Inl TypeError | Some m \<Rightarrow> Inr m)"

fun subtotal_reduce :: "MenuItem list \<Rightarrow> OrderItemInput list \<Rightarrow> int \<Rightarrow> error + int" where
  "subtotal_reduce ms [] acc = Inr acc"
| "subtotal_reduce ms (item # rest) acc =
     (case find_menuItem ms (req_menuItemId item) of
        Inl e \<Rightarrow> Inl e
      | Inr m \<Rightarrow> subtotal_reduce ms rest (acc + menuItem_priceCents m * req_quantity item))"

fun create_items :: "MenuItem list \<Rightarrow> OrderItemInput list \<Rightarrow> error + OrderItem list" where
  "create_items ms [] = Inr []"
| "create_items ms (item # rest) =
     (case find_menuItem ms (req_menuItemId item) of
        Inl e \<Rightarrow> Inl e
      | Inr m \<Rightarrow>
          (case create_items ms rest of
             Inl e \<Rightarrow> Inl e
           | Inr its \<Rightarrow>
               Inr (\<lparr>menuItemId = req_menuItemId item, quantity = req_quantity item,
                     priceCents = menuItem_priceCents m, menuItemName = menuItem_name m\<rparr> # its)))"

definition createOrder ::
  "OrderDefaults \<Rightarrow> Db \<Rightarrow> string \<Rightarrow> CreateOrderInput \<Rightarrow> (error + OrderWithFinancials) \<times> Db" where
  "createOrder gen db cid input =
     (case restaurant_findUnique db (req_restaurantId input) of
        None \<Rightarrow> (Inl (HttpError 404 ''Restaurant not found''), db)
      | Some restaurant \<Rightarrow>
          let ms = menuItem_findMany db (map req_menuItemId (req_items input))
                     (restaurant_id restaurant)
          in if length ms \<noteq> length (req_items input)
             then (Inl (HttpError 400 ''Some menu items are unavailable''), db)
             else
               (case subtotal_reduce ms (req_items input) 0 of
                  Inl e \<Rightarrow> (Inl e, db)
                | Inr subtotal \<Rightarrow>
                    let tax = Math_round (js_mul subtotal TAX_RATE);
                        totalC = subtotal + tax
                    in (case create_items ms (req_items input) of
                          Inl e \<Rightarrow> (Inl e, db)
                        | Inr its \<Rightarrow>
                            let ord = \<lparr>order_id = new_id gen, customerId = cid,
                                       restaurantId = restaurant_id restaurant,
                                       status = new_status gen,
                                       pickupEtaMin = req_pickupEtaMin input,
                                       routeOrigin = req_routeOrigin input,
                                       routeDestination = req_routeDestination input,
                                       totalCents = totalC, createdAt = new_createdAt gen,
                                       items = its\<rparr>
                            in (Inr (attachFinancials ord (Some (subtotal, tax))),
                                db\<lparr>orders := orders db @ [ord]\<rparr>))))"

subsection \<open>Reading orders\<close>

text \<open>
  \<^verbatim>\<open>orderBy: [{ status: "asc" }, { createdAt: "asc" }]\<close> orders by the status first, an
  enum in the order of its declaration, and by the creation time within a status.
\<close>

definition statusRank :: "OrderStatus \<Rightarrow> nat" where
  "statusRank s = (case s of PENDING \<Rightarrow> 0 | PREPARING \<Rightarrow> 1 | READY \<Rightarrow> 2
                     | COMPLETED \<Rightarrow> 3 | CANCELED \<Rightarrow> 4)"

definition listOrdersForUser :: "Db \<Rightarrow> string \<Rightarrow> OrderWithFinancials list" where
  "listOrdersForUser db cid =
     map (\<lambda>ord. attachFinancials ord None)
       (sort_key (\<lambda>ord. - createdAt ord) (filter (\<lambda>ord. customerId ord = cid) (orders db)))"

definition listOrdersForRestaurant :: "Db \<Rightarrow> string \<Rightarrow> OrderWithFinancials list" where
  "listOrdersForRestaurant db rid =
     map (\<lambda>ord. attachFinancials ord None)
       (sort_key (\<lambda>ord. statusRank (status ord))
          (sort_key createdAt (filter (\<lambda>ord. restaurantId ord = rid) (orders db))))"

definition getOrderForCustomer :: "Db \<Rightarrow> string \<Rightarrow> string \<Rightarrow> error + OrderWithFinancials" where
  "getOrderForCustomer db orderId cid =
     (case order_findUnique db orderId of
        None \<Rightarrow> Inl (HttpError 404 ''Order not found'')
      | Some ord \<Rightarrow>
          if customerId ord \<noteq> cid then Inl (HttpError 404 ''Order not found'')
          else Inr (attachFinancials ord None))"

subsection \<open>Route update\<close>

record UpdateRouteInput =
  upd_routeOrigin :: "string option"
  upd_routeDestination :: "string option"
  upd_pickupEtaMin :: "int option"

definition ROUTE_UPDATEABLE_STATUSES :: "OrderStatus list" where
  "ROUTE_UPDATEABLE_STATUSES = [PENDING, PREPARING]"

fun status_string :: "OrderStatus \<Rightarrow> string" where
  "status_string PENDING = ''PENDING''"
| "status_string PREPARING = ''PREPARING''"
| "status_string READY = ''READY''"
| "status_string COMPLETED = ''COMPLETED''"
| "status_string CANCELED = ''CANCELED''"

definition route_status_message :: "OrderStatus \<Rightarrow> string" where
  "route_status_message s =
     ''Cannot update route for order with status '' @ status_string s @
     ''. Only orders with status PENDING or PREPARING can be re-routed.''"

text \<open>
  \<^verbatim>\<open>updateData\<close> is the partial record the source builds field by field; applying it is
  what \<^verbatim>\<open>prisma.order.update({ data: updateData })\<close> does to the row.
\<close>

definition apply_updateData :: "UpdateRouteInput \<Rightarrow> Order \<Rightarrow> Order" where
  "apply_updateData d row =
     row\<lparr>routeOrigin := (case upd_routeOrigin d of None \<Rightarrow> routeOrigin row | Some v \<Rightarrow> v),
         routeDestination :=
           (case upd_routeDestination d of None \<Rightarrow> routeDestination row | Some v \<Rightarrow> v),
         pickupEtaMin := (case upd_pickupEtaMin d of None \<Rightarrow> pickupEtaMin row | Some v \<Rightarrow> v)\<rparr>"

definition updateOrderRoute ::
  "Db \<Rightarrow> string \<Rightarrow> string \<Rightarrow> UpdateRouteInput \<Rightarrow> (error + OrderWithFinancials) \<times> Db" where
  "updateOrderRoute db orderId cid input =
     (case order_findUnique db orderId of
        None \<Rightarrow> (Inl (HttpError 404 ''Order not found''), db)
      | Some ord \<Rightarrow>
          if customerId ord \<noteq> cid then (Inl (HttpError 404 ''Order not found''), db)
          else if status ord \<notin> set ROUTE_UPDATEABLE_STATUSES
            then (Inl (HttpError 400 (route_status_message (status ord))), db)
          else if (case upd_pickupEtaMin input of None \<Rightarrow> False | Some eta \<Rightarrow> eta \<le> 0)
            then (Inl (HttpError 400 ''pickupEtaMin must be a positive number''), db)
          else if upd_routeOrigin input = None \<and> upd_routeDestination input = None
                  \<and> upd_pickupEtaMin input = None
            then (Inl (HttpError 400 ''At least one route field must be provided''), db)
          else (Inr (attachFinancials (apply_updateData input ord) None),
                order_update db orderId (apply_updateData input)))"

subsection \<open>JavaScript dates\<close>

text \<open>
  A \<^verbatim>\<open>Date\<close> is its time value, the milliseconds since the epoch in UTC.  The local-time
  methods (\<^verbatim>\<open>getHours\<close>, \<^verbatim>\<open>getDay\<close>, \<^verbatim>\<open>getDate\<close>, \<^verbatim>\<open>setDate\<close>) depend on
  the time zone of the server process: \<open>tz\<close> is its offset from UTC in minutes (local time is
  UTC plus \<open>tz\<close>; a zone without daylight saving).  \<^verbatim>\<open>toISOString\<close> is always UTC.
\<close>

definition msPerDay :: int where
  "msPerDay = 86400000"

definition localTime :: "int \<Rightarrow> int \<Rightarrow> int" where
  "localTime tz t = t + tz * 60000"

text \<open>Year, month (1 to 12) and day of the month of a day number (days since the epoch).\<close>

definition civil_from_days :: "int \<Rightarrow> int \<times> int \<times> int" where
  "civil_from_days days =
     (let z = days + 719468;
          era = z div 146097;
          doe = z mod 146097;
          yoe = (doe - doe div 1460 + doe div 36524 - doe div 146096) div 365;
          doy = doe - (365 * yoe + yoe div 4 - yoe div 100);
          mp = (5 * doy + 2) div 153;
          d = doy - (153 * mp + 2) div 5 + 1;
          m = (if mp < 10 then mp + 3 else mp - 9);
          y = yoe + era * 400 + (if m \<le> 2 then 1 else 0)
      in (y, m, d))"

definition Date_getHours :: "int \<Rightarrow> int \<Rightarrow> int" where
  "Date_getHours tz t = (localTime tz t div 3600000) mod 24"

definition weekDay :: "int \<Rightarrow> int" where
  "weekDay days = (days + 4) mod 7"

definition Date_getDay :: "int \<Rightarrow> int \<Rightarrow> int" where
  "Date_getDay tz t = weekDay (localTime tz t div msPerDay)"

definition Date_getDate :: "int \<Rightarrow> int \<Rightarrow> int" where
  "Date_getDate tz t = snd (snd (civil_from_days (localTime tz t div msPerDay)))"

text \<open>
  \<^verbatim>\<open>setDate(d)\<close> moves the local calendar date to day \<open>d\<close> of the current month (days
  outside the month run into the neighbouring months) and keeps the local time of day.
\<close>

definition Date_setDate :: "int \<Rightarrow> int \<Rightarrow> int \<Rightarrow> int" where
  "Date_setDate tz t d = t + (d - Date_getDate tz t) * msPerDay"

definition digit :: "int \<Rightarrow> char" where
  "digit n = ''0123456789'' ! nat (n mod 10)"

definition pad2 :: "int \<Rightarrow> string" where
  "pad2 n = [digit (n div 10), digit n]"

definition pad4 :: "int \<Rightarrow> string" where
  "pad4 n = [digit (n div 1000), digit (n div 100), digit (n div 10), digit n]"

definition pad6 :: "int \<Rightarrow> string" where
  "pad6 n = digit (n div 100000) # digit (n div 10000) # pad4 n"

definition isoYear :: "int \<Rightarrow> string" where
  "isoYear y = (if 0 \<le> y \<and> y \<le> 9999 then pad4 y
                else if y < 0 then CHR ''-'' # pad6 (- y) else CHR ''+'' # pad6 y)"

text \<open>\<^verbatim>\<open>toISOString().split("T")[0]\<close>: the UTC calendar date, \<^verbatim>\<open>YYYY-MM-DD\<close>.\<close>

definition isoDate :: "int \<Rightarrow> string" where
  "isoDate t =
     (case civil_from_days (t div msPerDay) of
        (y, m, d) \<Rightarrow> isoYear y @ ''-'' @ pad2 m @ ''-'' @ pad2 d)"

subsection \<open>Analytics service\<close>

record PopularItem =
  pi_menuItemId :: string
  pi_menuItemName :: string
  pi_totalQuantity :: int
  pi_orderCount :: int
  pi_revenueCents :: int

record PeakTime =
  pt_hour :: int
  pt_orderCount :: int
  pt_revenueCents :: int

record RestaurantAnalytics =
  ra_popularItems :: "PopularItem list"
  ra_peakTimes :: "PeakTime list"
  ra_totalOrders :: int
  ra_totalRevenueCents :: int

text \<open>The accumulator kept per menu item while the order items are scanned.\<close>

record ItemStats =
  is_menuItemId :: string
  is_menuItemName :: string
  is_totalQuantity :: int
  is_orderIds :: "string list"
  is_revenueCents :: int

text \<open>
  \<^verbatim>\<open>prisma.orderItem.findMany\<close> with the filter on the owning order: the items of the
  restaurant's orders that are not canceled, each with the id of its order.
\<close>

definition notCanceledOf :: "Db \<Rightarrow> string \<Rightarrow> Order list" where
  "notCanceledOf db rid =
     filter (\<lambda>ord. restaurantId ord = rid \<and> status ord \<noteq> CANCELED) (orders db)"

definition orderItem_findMany :: "Db \<Rightarrow> string \<Rightarrow> (string \<times> OrderItem) list" where
  "orderItem_findMany db rid =
     concat (map (\<lambda>ord. map (\<lambda>it. (order_id ord, it)) (items ord)) (notCanceledOf db rid))"

definition popular_step ::
  "string \<times> OrderItem \<Rightarrow> (string \<times> ItemStats) list \<Rightarrow> (string \<times> ItemStats) list" where
  "popular_step orderItem itemMap =
     (let oid = fst orderItem; it = snd orderItem; mid = menuItemId it
      in case Map_get itemMap mid of
           Some existing \<Rightarrow>
             Map_set itemMap mid
               (existing\<lparr>is_totalQuantity := is_totalQuantity existing + quantity it,
                         is_orderIds := Set_add (is_orderIds existing) oid,
                         is_revenueCents := is_revenueCents existing + priceCents it * quantity it\<rparr>)
         | None \<Rightarrow>
             Map_set itemMap mid
               \<lparr>is_menuItemId = mid, is_menuItemName = menuItemName it,
                is_totalQuantity = quantity it, is_orderIds = [oid],
                is_revenueCents = priceCents it * quantity it\<rparr>)"

definition toPopularItem :: "ItemStats \<Rightarrow> PopularItem" where
  "toPopularItem item =
     \<lparr>pi_menuItemId = is_menuItemId item, pi_menuItemName = is_menuItemName item,
      pi_totalQuantity = is_totalQuantity item, pi_orderCount = int (length (is_orderIds item)),
      pi_revenueCents = is_revenueCents item\<rparr>"

text \<open>
  \<^verbatim>\<open>sort((a, b) => b.totalQuantity - a.totalQuantity)\<close> is a stable sort, descending;
  \<open>sort_key\<close> is the stable insertion sort, ascending in its key.
\<close>

definition popularRanking :: "(string \<times> OrderItem) list \<Rightarrow> PopularItem list" where
  "popularRanking orderItems =
     sort_key (\<lambda>a. - pi_totalQuantity a)
       (map (\<lambda>entry. toPopularItem (snd entry)) (fold popular_step orderItems []))"

definition getPopularItems :: "Db \<Rightarrow> string \<Rightarrow> int option \<Rightarrow> PopularItem list" where
  "getPopularItems db rid limit =
     Array_slice (popularRanking (orderItem_findMany db rid)) 0
       (Some (case limit of None \<Rightarrow> 10 | Some l \<Rightarrow> l))"

definition hourMap_init :: "(int \<times> int \<times> int) list" where
  "hourMap_init = map (\<lambda>h. (int h, 0, 0)) [0..<24]"

text \<open>
  \<^verbatim>\<open>hourMap.get(hour)!\<close> followed by a field update: a missing bucket would throw a
  \<^verbatim>\<open>TypeError\<close>.
\<close>

fun peak_aggregate ::
  "int \<Rightarrow> Order list \<Rightarrow> (int \<times> int \<times> int) list \<Rightarrow> error + (int \<times> int \<times> int) list" where
  "peak_aggregate tz [] hourMap = Inr hourMap"
| "peak_aggregate tz (ord # rest) hourMap =
     (let hour = Date_getHours tz (createdAt ord)
      in case Map_get hourMap hour of
           None \<Rightarrow> Inl TypeError
         | Some existing \<Rightarrow>
             peak_aggregate tz rest
               (Map_set hourMap hour (fst existing + 1, snd existing + totalCents ord)))"

definition toPeakTime :: "int \<times> int \<times> int \<Rightarrow> PeakTime" where
  "toPeakTime entry =
     \<lparr>pt_hour = fst entry, pt_orderCount = fst (snd entry), pt_revenueCents = snd (snd entry)\<rparr>"

definition getPeakTimes :: "int \<Rightarrow> Db \<Rightarrow> string \<Rightarrow> error + PeakTime list" where
  "getPeakTimes tz db rid =
     (case peak_aggregate tz (notCanceledOf db rid) hourMap_init of
        Inl e \<Rightarrow> Inl e
      | Inr hourMap \<Rightarrow> Inr (sort_key (\<lambda>a. - pt_orderCount a) (map toPeakTime hourMap)))"

text \<open>
  \<^verbatim>\<open>prisma.order.aggregate\<close> with \<^verbatim>\<open>_count\<close> and \<^verbatim>\<open>_sum\<close>: the sum over no
  rows is \<^verbatim>\<open>null\<close>.
\<close>

definition order_aggregate :: "Db \<Rightarrow> string \<Rightarrow> int \<times> int option" where
  "order_aggregate db rid =
     (let rows = notCanceledOf db rid
      in (int (length rows),
          if rows = [] then None else Some (sum_list (map totalCents rows))))"

definition getRestaurantAnalytics ::
  "int \<Rightarrow> Db \<Rightarrow> string \<Rightarrow> int option \<Rightarrow> error + RestaurantAnalytics" where
  "getRestaurantAnalytics tz db rid popularItemsLimit =
     (let popularItems =
            getPopularItems db rid (Some (case popularItemsLimit of None \<Rightarrow> 10 | Some l \<Rightarrow> l))
      in case getPeakTimes tz db rid of
           Inl e \<Rightarrow> Inl e
         | Inr peakTimes \<Rightarrow>
             (case order_aggregate db rid of
                (cnt, total_sum) \<Rightarrow>
                  Inr \<lparr>ra_popularItems = popularItems, ra_peakTimes = peakTimes,
                       ra_totalOrders = cnt,
                       ra_totalRevenueCents = (case total_sum of None \<Rightarrow> 0 | Some v \<Rightarrow> v)\<rparr>))"

subsection \<open>Dashboard analytics of the order service\<close>

text \<open>
  The variant of the order service that feeds the merchant dashboard has an analytics
  function of its own (also called \<^verbatim>\<open>getRestaurantAnalytics\<close> there), with the totals, the
  average order cost, the daily and weekly rollups and a top-five list of hours.
\<close>

record TimeBasedStats =
  ts_date :: string
  ts_orderCount :: int
  ts_totalRevenueCents :: int
  ts_averageOrderValueCents :: int

record DashboardPopularItem =
  dp_menuItemId :: string
  dp_name :: string
  dp_totalQuantity :: int
  dp_totalRevenueCents :: int

record DashboardAnalytics =
  da_popularItems :: "DashboardPopularItem list"
  da_averageOrderCostCents :: int
  da_totalOrders :: int
  da_totalRevenueCents :: int
  da_ordersByDay :: "TimeBasedStats list"
  da_ordersByWeek :: "TimeBasedStats list"
  da_peakOrderingHours :: "(int \<times> int) list"

definition bucket_step ::
  "(int \<Rightarrow> string) \<Rightarrow> Order \<Rightarrow> (string \<times> int \<times> int) list \<Rightarrow> (string \<times> int \<times> int) list" where
  "bucket_step keyOf ord m =
     (let k = keyOf (createdAt ord)
      in case Map_get m k of
           Some existing \<Rightarrow> Map_set m k (fst existing + 1, snd existing + totalCents ord)
         | None \<Rightarrow> Map_set m k (1, totalCents ord))"

definition toTimeBasedStats :: "string \<times> int \<times> int \<Rightarrow> TimeBasedStats" where
  "toTimeBasedStats entry =
     (case entry of (date, cnt, revenue) \<Rightarrow>
        \<lparr>ts_date = date, ts_orderCount = cnt, ts_totalRevenueCents = revenue,
         ts_averageOrderValueCents = Math_round (js_div revenue cnt)\<rparr>)"

text \<open>
  \<^verbatim>\<open>sort((a, b) => a.date.localeCompare(b.date))\<close>: on the date keys, which have digits
  and hyphens in the same places, the collation order is the lexicographic order of the
  characters.
\<close>

definition rollup :: "(int \<Rightarrow> string) \<Rightarrow> Order list \<Rightarrow> TimeBasedStats list" where
  "rollup keyOf ords = sort_key ts_date (map toTimeBasedStats (fold (bucket_step keyOf) ords []))"

definition weekKey :: "int \<Rightarrow> int \<Rightarrow> string" where
  "weekKey tz t = isoDate (Date_setDate tz t (Date_getDate tz t - Date_getDay tz t))"

definition ordersByDay :: "Order list \<Rightarrow> TimeBasedStats list" where
  "ordersByDay ords = Array_slice (rollup isoDate ords) (- 30) None"

definition ordersByWeek :: "int \<Rightarrow> Order list \<Rightarrow> TimeBasedStats list" where
  "ordersByWeek tz ords = Array_slice (rollup (weekKey tz) ords) (- 12) None"

definition hourCounts_step :: "int \<Rightarrow> Order \<Rightarrow> (int \<times> int) list \<Rightarrow> (int \<times> int) list" where
  "hourCounts_step tz ord m =
     (let hour = Date_getHours tz (createdAt ord)
      in Map_set m hour ((case Map_get m hour of None \<Rightarrow> 0 | Some c \<Rightarrow> if c = 0 then 0 else c) + 1))"

definition peakOrderingHours :: "int \<Rightarrow> Order list \<Rightarrow> (int \<times> int) list" where
  "peakOrderingHours tz ords =
     Array_slice (sort_key (\<lambda>a. - snd a) (fold (hourCounts_step tz) ords [])) 0 (Some 5)"

text \<open>
  The name of an item is read as \<^verbatim>\<open>orderItem.menuItem?.name ?? "Unknown Item"\<close>; the
  relation being required, the name is always there.
\<close>

definition dashboard_item_step ::
  "OrderItem \<Rightarrow> (string \<times> string \<times> int \<times> int) list \<Rightarrow> (string \<times> string \<times> int \<times> int) list" where
  "dashboard_item_step orderItem itemMap =
     (let mid = menuItemId orderItem;
          qty = quantity orderItem;
          revenueCents = priceCents orderItem * qty
      in case Map_get itemMap mid of
           Some existing \<Rightarrow>
             (case existing of (name, totalQuantity, totalRevenue) \<Rightarrow>
                Map_set itemMap mid (name, totalQuantity + qty, totalRevenue + revenueCents))
         | None \<Rightarrow> Map_set itemMap mid (menuItemName orderItem, qty, revenueCents))"

definition toDashboardPopularItem :: "string \<times> string \<times> int \<times> int \<Rightarrow> DashboardPopularItem" where
  "toDashboardPopularItem entry =
     (case entry of (mid, name, totalQuantity, totalRevenue) \<Rightarrow>
        \<lparr>dp_menuItemId = mid, dp_name = name, dp_totalQuantity = totalQuantity,
         dp_totalRevenueCents = totalRevenue\<rparr>)"

definition dashboardPopularItems :: "Order list \<Rightarrow> DashboardPopularItem list" where
  "dashboardPopularItems ords =
     sort_key (\<lambda>a. - dp_totalQuantity a)
       (map toDashboardPopularItem
          (fold (\<lambda>ord itemMap. fold dashboard_item_step (items ord) itemMap) ords []))"

definition getRestaurantAnalytics_dashboard :: "int \<Rightarrow> Db \<Rightarrow> string \<Rightarrow> DashboardAnalytics" where
  "getRestaurantAnalytics_dashboard tz db rid =
     (let ords = notCanceledOf db rid;
          totalOrders = int (length ords);
          totalRevenueCents = fold (\<lambda>ord acc. acc + totalCents ord) ords 0;
          averageOrderCostCents =
            (if totalOrders > 0 then Math_round (js_div totalRevenueCents totalOrders) else 0)
      in \<lparr>da_popularItems = dashboardPopularItems ords,
          da_averageOrderCostCents = averageOrderCostCents,
          da_totalOrders = totalOrders,
          da_totalRevenueCents = totalRevenueCents,
          da_ordersByDay = ordersByDay ords,
          da_ordersByWeek = ordersByWeek tz ords,
          da_peakOrderingHours = peakOrderingHours tz ords\<rparr>)"

subsection \<open>Example data\<close>

text \<open>
  A small store used to run the functions on concrete inputs: one active and one inactive
  restaurant, three menu items (one unavailable), and four orders of the first restaurant,
  the last of them canceled.  The first two orders were placed on 2024-01-04 at 03:00 and
  03:30 UTC, the other two on 2024-01-03 at 17:00 UTC.  Each total is the subtotal of the
  items plus the tax on it.
\<close>

definition ex_item :: "string \<Rightarrow> string \<Rightarrow> int \<Rightarrow> int \<Rightarrow> OrderItem" where
  "ex_item mid name qty price =
     \<lparr>menuItemId = mid, quantity = qty, priceCents = price, menuItemName = name\<rparr>"

definition ex_order :: "string \<Rightarrow> OrderStatus \<Rightarrow> int \<Rightarrow> int \<Rightarrow> OrderItem list \<Rightarrow> Order" where
  "ex_order oid st cents t its =
     \<lparr>order_id = oid, customerId = ''cust-1'', restaurantId = ''rest-1'', status = st,
      pickupEtaMin = 15, routeOrigin = ''Raleigh'', routeDestination = ''Durham'',
      totalCents = cents, createdAt = t, items = its\<rparr>"

definition ex_order1 :: Order where
  "ex_order1 = ex_order ''order-1'' COMPLETED 1000 1704337200000
                 [ex_item ''item-1'' ''Burger'' 1 462, ex_item ''item-2'' ''Fries'' 2 231]"

definition ex_order2 :: Order where
  "ex_order2 = ex_order ''order-2'' PENDING 500 1704339000000 [ex_item ''item-1'' ''Burger'' 1 462]"

definition ex_order3 :: Order where
  "ex_order3 = ex_order ''order-3'' READY 1500 1704301200000 [ex_item ''item-2'' ''Fries'' 6 231]"

definition ex_order4 :: Order where
  "ex_order4 = ex_order ''order-4'' CANCELED 5000 1704301200000 [ex_item ''item-3'' ''Salad'' 1 4619]"

definition ex_menu :: "MenuItem list" where
  "ex_menu =
     [\<lparr>menuItem_id = ''item-1'', menuItem_name = ''Burger'', menuItem_restaurantId = ''rest-1'',
       menuItem_priceCents = 462, isAvailable = True\<rparr>,
      \<lparr>menuItem_id = ''item-2'', menuItem_name = ''Fries'', menuItem_restaurantId = ''rest-1'',
       menuItem_priceCents = 231, isAvailable = True\<rparr>,
      \<lparr>menuItem_id = ''item-3'', menuItem_name = ''Salad'', menuItem_restaurantId = ''rest-1'',
       menuItem_priceCents = 4619, isAvailable = False\<rparr>]"

definition ex_db :: Db where
  "ex_db =
     \<lparr>restaurants = [\<lparr>restaurant_id = ''rest-1'', isActive = True\<rparr>,
                     \<lparr>restaurant_id = ''rest-2'', isActive = False\<rparr>],
      menuItems = ex_menu,
      orders = [ex_order1, ex_order2, ex_order3, ex_order4]\<rparr>"

definition ex_eta_only :: UpdateRouteInput where
  "ex_eta_only = \<lparr>upd_routeOrigin = None, upd_routeDestination = None, upd_pickupEtaMin = Some 25\<rparr>"

definition ex_input :: CreateOrderInput where
  "ex_input =
     \<lparr>req_restaurantId = ''rest-1'',
      req_items = [\<lparr>req_menuItemId = ''item-1'', req_quantity = 2\<rparr>,
                   \<lparr>req_menuItemId = ''item-2'', req_quantity = 3\<rparr>],
      req_pickupEtaMin = 20, req_routeOrigin = ''Cary'', req_routeDestination = ''Apex''\<rparr>"

definition ex_dup_input :: CreateOrderInput where
  "ex_dup_input =
     \<lparr>req_restaurantId = ''rest-1'',
      req_items = [\<lparr>req_menuItemId = ''item-1'', req_quantity = 1\<rparr>,
                   \<lparr>req_menuItemId = ''item-1'', req_quantity = 2\<rparr>],
      req_pickupEtaMin = 20, req_routeOrigin = ''Cary'', req_routeDestination = ''Apex''\<rparr>"

definition ex_gen :: OrderDefaults where
  "ex_gen = \<lparr>new_id = ''order-5'', new_createdAt = 1704340800000, new_status = PENDING\<rparr>"

definition ex_new_order :: Order where
  "ex_new_order =
     \<lparr>order_id = ''order-5'', customerId = ''cust-1'', restaurantId = ''rest-1'',
      status = PENDING, pickupEtaMin = 20, routeOrigin = ''Cary'', routeDestination = ''Apex'',
      totalCents = 1750, createdAt = 1704340800000,
      items = [ex_item ''item-1'' ''Burger'' 2 462, ex_item ''item-2'' ''Fries'' 3 231]\<rparr>"

text \<open>A store without rows.\<close>

definition empty_db :: Db where
  "empty_db = \<lparr>restaurants = [], menuItems = [], orders = []\<rparr>"

text \<open>
  The specification's example for the ranking: item A ordered twice (2 and 3 pieces at
  1000 cents), item B once (10 pieces at 500 cents).
\<close>

definition ex_popular_db :: Db where
  "ex_popular_db =
     \<lparr>restaurants = [\<lparr>restaurant_id = ''rest-1'', isActive = True\<rparr>],
      menuItems = [],
      orders =
        [ex_order ''order-a1'' COMPLETED 2165 1704337200000 [ex_item ''item-a'' ''Wrap'' 2 1000],
         ex_order ''order-a2'' COMPLETED 3248 1704339000000 [ex_item ''item-a'' ''Wrap'' 3 1000],
         ex_order ''order-b'' COMPLETED 5413 1704340800000 [ex_item ''item-b'' ''Soda'' 10 500]]\<rparr>"

subsection \<open>Notions of the specification\<close>

text \<open>The stored row of a menu item, and its stored (canonical) price.\<close>

definition stored_menuItem :: "Db \<Rightarrow> string \<Rightarrow> MenuItem option" where
  "stored_menuItem db mid = find (\<lambda>m. menuItem_id m = mid) (menuItems db)"

definition stored_priceCents :: "Db \<Rightarrow> string \<Rightarrow> int" where
  "stored_priceCents db mid =
     (case stored_menuItem db mid of None \<Rightarrow> 0 | Some m \<Rightarrow> menuItem_priceCents m)"

text \<open>A menu item id resolves to an available menu item of the restaurant.\<close>

definition resolves :: "Db \<Rightarrow> string \<Rightarrow> string \<Rightarrow> bool" where
  "resolves db rid mid \<longleftrightarrow>
     (\<exists>m \<in> set (menuItems db).
        menuItem_id m = mid \<and> menuItem_restaurantId m = rid \<and> isAvailable m)"

text \<open>The sum over the items of price times quantity.\<close>

definition items_subtotal :: "OrderItem list \<Rightarrow> int" where
  "items_subtotal its = (\<Sum>it\<leftarrow>its. priceCents it * quantity it)"

text \<open>The annotation of an order is the one derived from its items and its total.\<close>

definition derived_financials :: "OrderWithFinancials \<Rightarrow> bool" where
  "derived_financials a \<longleftrightarrow>
     subtotalCents a = items_subtotal (items (order a))
     \<and> taxCents a = max (totalCents (order a) - subtotalCents a) 0"

subsection \<open>The shape shared by the aggregation loops\<close>

text \<open>
  Every aggregation loop of the analytics code looks a key up in a map, updates the entry
  that is there, or inserts a first entry.  \<open>group_step\<close> is that step, with the initial
  entry and the update as parameters; the loops of the source are shown to be instances
  of it, and the facts about their results are proved once.
\<close>

definition group_step ::
  "('x \<Rightarrow> 'k) \<Rightarrow> ('x \<Rightarrow> 'v) \<Rightarrow> ('x \<Rightarrow> 'v \<Rightarrow> 'v) \<Rightarrow> 'x \<Rightarrow> ('k \<times> 'v) list \<Rightarrow> ('k \<times> 'v) list" where
  "group_step key init upd x m =
     (case Map_get m (key x) of
        Some existing \<Rightarrow> Map_set m (key x) (upd x existing)
      | None \<Rightarrow> Map_set m (key x) (init x))"

definition pop_init :: "string \<times> OrderItem \<Rightarrow> ItemStats" where
  "pop_init r =
     \<lparr>is_menuItemId = menuItemId (snd r), is_menuItemName = menuItemName (snd r),
      is_totalQuantity = quantity (snd r), is_orderIds = [fst r],
      is_revenueCents = priceCents (snd r) * quantity (snd r)\<rparr>"

definition pop_upd :: "string \<times> OrderItem \<Rightarrow> ItemStats \<Rightarrow> ItemStats" where
  "pop_upd r existing =
     existing\<lparr>is_totalQuantity := is_totalQuantity existing + quantity (snd r),
               is_orderIds := Set_add (is_orderIds existing) (fst r),
               is_revenueCents := is_revenueCents existing + priceCents (snd r) * quantity (snd r)\<rparr>"

text \<open>The first entry and the update of a bucket of the daily and weekly rollups.\<close>

definition bucket_init :: "Order \<Rightarrow> int \<times> int" where
  "bucket_init ord = (1, totalCents ord)"

definition bucket_upd :: "Order \<Rightarrow> int \<times> int \<Rightarrow> int \<times> int" where
  "bucket_upd ord existing = (fst existing + 1, snd existing + totalCents ord)"

section \<open>Properties\<close>

subsection \<open>Store access\<close>

lemma find_map_update:
  assumes "\<And>row. order_id (f row) = order_id row"
  shows "find (\<lambda>row. order_id row = k) (map (\<lambda>row. if order_id row = oid then f row else row) xs)
         = (if k = oid then map_option f (find (\<lambda>row. order_id row = k) xs)
            else find (\<lambda>row. order_id row = k) xs)"
  using assms by (induction xs) auto

lemma order_findUnique_update:
  assumes "\<And>row. order_id (f row) = order_id row"
  shows "order_findUnique (order_update db oid f) k
         = (if k = oid then map_option f (order_findUnique db k) else order_findUnique db k)"
  unfolding order_findUnique_def order_update_def
  using find_map_update [of f k oid "orders db", OF assms] by simp

lemma ex_findUnique:
  "order_findUnique ex_db ''order-1'' = Some ex_order1"
  "order_findUnique ex_db ''order-2'' = Some ex_order2"
  "order_findUnique ex_db ''order-3'' = Some ex_order3"
  "order_findUnique ex_db ''order-4'' = Some ex_order4"
  by (simp_all add: order_findUnique_def ex_db_def ex_order1_def ex_order2_def ex_order3_def
        ex_order4_def ex_order_def)

lemma ex_order_fields:
  "restaurantId (ex_order oid st cents t its) = ''rest-1''"
  "customerId (ex_order oid st cents t its) = ''cust-1''"
  "status (ex_order oid st cents t its) = st"
  "order_id (ex_order oid st cents t its) = oid"
  "totalCents (ex_order oid st cents t its) = cents"
  "createdAt (ex_order oid st cents t its) = t"
  "items (ex_order oid st cents t its) = its"
  by (simp_all add: ex_order_def)

subsection \<open>The status state machine\<close>

lemma spec_allowed_iff: "t \<in> spec_allowed s \<longleftrightarrow> t \<in> set (STATUS_TRANSITIONS s)"
  by (cases s) (auto simp: spec_allowed_def)

lemma spec_allowed_irrefl: "s \<notin> spec_allowed s"
  by (cases s) (auto simp: spec_allowed_def)

text \<open>
  Claim C1.  For an order that exists and belongs to the restaurant, with current status
  \<open>status ord\<close> and requested status \<open>t\<close>: when \<open>t\<close> is the current status the call
  succeeds, returns the order as it is and leaves the store as it is; when \<open>t\<close> is in the
  allowed set of the specification's table the call succeeds, returns the order with status
  \<open>t\<close>, and the store then holds that order under the same id, every other order as
  before; in every other case the call fails with status 400 and the store is unchanged.
  In particular every request for a different status fails from COMPLETED and from
  CANCELED.
\<close>

theorem updateOrderStatus_transition_table:
  assumes found: "order_findUnique db orderId = Some ord"
    and owner: "restaurantId ord = rid"
  shows "(t = status ord \<longrightarrow>
            updateOrderStatusForRestaurant db rid orderId t = (Inr (attachFinancials ord None), db))
       \<and> (t \<in> spec_allowed (status ord) \<longrightarrow>
            (\<exists>db'. updateOrderStatusForRestaurant db rid orderId t
                     = (Inr (attachFinancials (ord\<lparr>status := t\<rparr>) None), db')
                 \<and> order_findUnique db' orderId = Some (ord\<lparr>status := t\<rparr>)
                 \<and> (\<forall>k. k \<noteq> orderId \<longrightarrow> order_findUnique db' k = order_findUnique db k)))
       \<and> (t \<noteq> status ord \<and> t \<notin> spec_allowed (status ord) \<longrightarrow>
            updateOrderStatusForRestaurant db rid orderId t
              = (Inl (HttpError 400 ''Invalid status transition''), db))
       \<and> ((status ord = COMPLETED \<or> status ord = CANCELED) \<and> t \<noteq> status ord \<longrightarrow>
            updateOrderStatusForRestaurant db rid orderId t
              = (Inl (HttpError 400 ''Invalid status transition''), db))"
proof (intro conjI impI)
  assume "t = status ord"
  with found owner
  show "updateOrderStatusForRestaurant db rid orderId t = (Inr (attachFinancials ord None), db)"
    by (simp add: updateOrderStatusForRestaurant_def)
next
  assume allowed: "t \<in> spec_allowed (status ord)"
  then have ne: "status ord \<noteq> t" using spec_allowed_irrefl by auto
  let ?db' = "order_update db orderId (\<lambda>row. row\<lparr>status := t\<rparr>)"
  have run: "updateOrderStatusForRestaurant db rid orderId t
               = (Inr (attachFinancials (ord\<lparr>status := t\<rparr>) None), ?db')"
    using found owner ne allowed
    by (simp add: updateOrderStatusForRestaurant_def spec_allowed_iff)
  have look: "order_findUnique ?db' k
               = (if k = orderId
                  then map_option (\<lambda>row. row\<lparr>status := t\<rparr>) (order_findUnique db k)
                  else order_findUnique db k)" for k
    by (rule order_findUnique_update) simp
  have "order_findUnique ?db' orderId = Some (ord\<lparr>status := t\<rparr>)"
    using look [of orderId] found by simp
  moreover have "\<forall>k. k \<noteq> orderId \<longrightarrow> order_findUnique ?db' k = order_findUnique db k"
    using look by simp
  ultimately
  show "\<exists>db'. updateOrderStatusForRestaurant db rid orderId t
                 = (Inr (attachFinancials (ord\<lparr>status := t\<rparr>) None), db')
             \<and> order_findUnique db' orderId = Some (ord\<lparr>status := t\<rparr>)
             \<and> (\<forall>k. k \<noteq> orderId \<longrightarrow> order_findUnique db' k = order_findUnique db k)"
    using run by blast
next
  assume "t \<noteq> status ord \<and> t \<notin> spec_allowed (status ord)"
  with found owner
  show "updateOrderStatusForRestaurant db rid orderId t
          = (Inl (HttpError 400 ''Invalid status transition''), db)"
    by (auto simp add: updateOrderStatusForRestaurant_def spec_allowed_iff)
next
  assume "(status ord = COMPLETED \<or> status ord = CANCELED) \<and> t \<noteq> status ord"
  with found owner
  show "updateOrderStatusForRestaurant db rid orderId t
          = (Inl (HttpError 400 ''Invalid status transition''), db)"
    by (auto simp add: updateOrderStatusForRestaurant_def)
qed

text \<open>
  The specification's examples on the example store: READY to READY is a no-op, PENDING to
  PREPARING succeeds, PENDING to READY and COMPLETED to PENDING fail.
\<close>

theorem updateOrderStatus_transition_table_witness:
  "updateOrderStatusForRestaurant ex_db ''rest-1'' ''order-3'' READY
      = (Inr (attachFinancials ex_order3 None), ex_db)
   \<and> fst (updateOrderStatusForRestaurant ex_db ''rest-1'' ''order-2'' PREPARING)
      = Inr (attachFinancials (ex_order2\<lparr>status := PREPARING\<rparr>) None)
   \<and> updateOrderStatusForRestaurant ex_db ''rest-1'' ''order-2'' READY
      = (Inl (HttpError 400 ''Invalid status transition''), ex_db)
   \<and> updateOrderStatusForRestaurant ex_db ''rest-1'' ''order-1'' PENDING
      = (Inl (HttpError 400 ''Invalid status transition''), ex_db)"
proof -
  have r: "restaurantId ex_order1 = ''rest-1''" "restaurantId ex_order2 = ''rest-1''"
    "restaurantId ex_order3 = ''rest-1''"
    by (simp_all add: ex_order1_def ex_order2_def ex_order3_def ex_order_fields)
  have s: "status ex_order1 = COMPLETED" "status ex_order2 = PENDING" "status ex_order3 = READY"
    by (simp_all add: ex_order1_def ex_order2_def ex_order3_def ex_order_fields)
  show ?thesis
    using updateOrderStatus_transition_table [OF ex_findUnique(3) r(3), of READY]
      updateOrderStatus_transition_table [OF ex_findUnique(2) r(2), of PREPARING]
      updateOrderStatus_transition_table [OF ex_findUnique(2) r(2), of READY]
      updateOrderStatus_transition_table [OF ex_findUnique(1) r(1), of PENDING]
    by (auto simp: s spec_allowed_def)
qed

subsection \<open>Route update\<close>

lemma attachFinancials_fields:
  "order (attachFinancials ord ov) = ord"
  "subtotalCents (attachFinancials ord None) = calculateSubtotal (items ord)"
  "taxCents (attachFinancials ord None) = max (totalCents ord - calculateSubtotal (items ord)) 0"
  "subtotalCents (attachFinancials ord (Some (s, t))) = s"
  "taxCents (attachFinancials ord (Some (s, t))) = t"
  by (simp_all add: attachFinancials_def Let_def)

text \<open>
  Claim C8.  \<^verbatim>\<open>updateOrderRoute\<close> fails with status 404 when the order does not exist or
  belongs to another customer.  For an order that exists and belongs to the customer it
  fails with status 400 and the message that names the order's status when that status is
  neither PENDING nor PREPARING, with status 400 when none of the three fields is supplied,
  and with status 400 when the supplied \<^verbatim>\<open>pickupEtaMin\<close> is not greater than zero.  Whenever
  it fails, the store it leaves is the store it was given.
\<close>

theorem updateOrderRoute_failures:
  "((order_findUnique db orderId = None
      \<or> (\<exists>ord. order_findUnique db orderId = Some ord \<and> customerId ord \<noteq> cid)) \<longrightarrow>
       updateOrderRoute db orderId cid input = (Inl (HttpError 404 ''Order not found''), db))
   \<and> (\<forall>ord. order_findUnique db orderId = Some ord \<and> customerId ord = cid \<longrightarrow>
         (status ord \<noteq> PENDING \<and> status ord \<noteq> PREPARING \<longrightarrow>
            updateOrderRoute db orderId cid input
              = (Inl (HttpError 400
                   (''Cannot update route for order with status '' @ status_string (status ord) @
                    ''. Only orders with status PENDING or PREPARING can be re-routed.'')), db))
       \<and> (upd_routeOrigin input = None \<and> upd_routeDestination input = None
            \<and> upd_pickupEtaMin input = None \<longrightarrow>
            (\<exists>msg. updateOrderRoute db orderId cid input = (Inl (HttpError 400 msg), db)))
       \<and> (\<forall>eta. upd_pickupEtaMin input = Some eta \<and> \<not> eta > 0 \<longrightarrow>
            (\<exists>msg. updateOrderRoute db orderId cid input = (Inl (HttpError 400 msg), db))))
   \<and> (\<forall>e. fst (updateOrderRoute db orderId cid input) = Inl e \<longrightarrow>
         snd (updateOrderRoute db orderId cid input) = db)"
  by (auto simp: updateOrderRoute_def ROUTE_UPDATEABLE_STATUSES_def route_status_message_def
      split: option.splits)

theorem updateOrderRoute_failures_witness:
  "updateOrderRoute ex_db ''order-9'' ''cust-1'' ex_eta_only
      = (Inl (HttpError 404 ''Order not found''), ex_db)
   \<and> updateOrderRoute ex_db ''order-2'' ''cust-2'' ex_eta_only
      = (Inl (HttpError 404 ''Order not found''), ex_db)
   \<and> updateOrderRoute ex_db ''order-3'' ''cust-1'' ex_eta_only
      = (Inl (HttpError 400 (''Cannot update route for order with status READY. '' @
           ''Only orders with status PENDING or PREPARING can be re-routed.'')), ex_db)
   \<and> (\<exists>msg. updateOrderRoute ex_db ''order-2'' ''cust-1''
         \<lparr>upd_routeOrigin = None, upd_routeDestination = None, upd_pickupEtaMin = None\<rparr>
        = (Inl (HttpError 400 msg), ex_db))
   \<and> (\<exists>msg. updateOrderRoute ex_db ''order-2'' ''cust-1''
         \<lparr>upd_routeOrigin = None, upd_routeDestination = None, upd_pickupEtaMin = Some 0\<rparr>
        = (Inl (HttpError 400 msg), ex_db))"
proof -
  have none: "order_findUnique ex_db ''order-9'' = None"
    by (simp add: order_findUnique_def ex_db_def ex_order1_def ex_order2_def ex_order3_def
        ex_order4_def ex_order_def)
  have f: "customerId ex_order2 = ''cust-1''" "customerId ex_order3 = ''cust-1''"
    "status ex_order3 = READY"
    by (simp_all add: ex_order2_def ex_order3_def ex_order_fields)
  show ?thesis
    using updateOrderRoute_failures [of ex_db "''order-9''" "''cust-1''" ex_eta_only]
      updateOrderRoute_failures [of ex_db "''order-2''" "''cust-2''" ex_eta_only]
      updateOrderRoute_failures [of ex_db "''order-3''" "''cust-1''" ex_eta_only]
      updateOrderRoute_failures [of ex_db "''order-2''" "''cust-1''"
        "\<lparr>upd_routeOrigin = None, upd_routeDestination = None, upd_pickupEtaMin = None\<rparr>"]
      updateOrderRoute_failures [of ex_db "''order-2''" "''cust-1''"
        "\<lparr>upd_routeOrigin = None, upd_routeDestination = None, upd_pickupEtaMin = Some 0\<rparr>"]
    by (simp add: none ex_findUnique f)
qed

text \<open>
  Claim C9.  After a successful \<^verbatim>\<open>updateOrderRoute\<close> the store holds, under the same id,
  the order that is returned; each of \<^verbatim>\<open>routeOrigin\<close>, \<^verbatim>\<open>routeDestination\<close> and
  \<^verbatim>\<open>pickupEtaMin\<close> has the supplied value, or its previous value when none was supplied;
  status, total, items, the three ids and the creation time are the previous ones; and no
  other order, restaurant or menu item has changed.
\<close>

theorem updateOrderRoute_merges_supplied_fields:
  assumes "updateOrderRoute db orderId cid input = (Inr res, db')"
  shows "\<exists>ord. order_findUnique db orderId = Some ord
           \<and> order_findUnique db' orderId = Some (order res)
           \<and> routeOrigin (order res)
               = (case upd_routeOrigin input of None \<Rightarrow> routeOrigin ord | Some v \<Rightarrow> v)
           \<and> routeDestination (order res)
               = (case upd_routeDestination input of None \<Rightarrow> routeDestination ord | Some v \<Rightarrow> v)
           \<and> pickupEtaMin (order res)
               = (case upd_pickupEtaMin input of None \<Rightarrow> pickupEtaMin ord | Some v \<Rightarrow> v)
           \<and> status (order res) = status ord
           \<and> totalCents (order res) = totalCents ord
           \<and> items (order res) = items ord
           \<and> order_id (order res) = order_id ord
           \<and> customerId (order res) = customerId ord
           \<and> restaurantId (order res) = restaurantId ord
           \<and> createdAt (order res) = createdAt ord
           \<and> (\<forall>k. k \<noteq> orderId \<longrightarrow> order_findUnique db' k = order_findUnique db k)
           \<and> restaurants db' = restaurants db \<and> menuItems db' = menuItems db"
proof -
  from assms obtain ord where found: "order_findUnique db orderId = Some ord"
    by (auto simp: updateOrderRoute_def split: option.splits)
  from assms found have res: "res = attachFinancials (apply_updateData input ord) None"
    and db': "db' = order_update db orderId (apply_updateData input)"
    by (auto simp: updateOrderRoute_def split: if_splits)
  have look: "order_findUnique db' k
               = (if k = orderId then map_option (apply_updateData input) (order_findUnique db k)
                  else order_findUnique db k)" for k
    unfolding db' by (rule order_findUnique_update) (simp add: apply_updateData_def)
  have ord: "order res = apply_updateData input ord"
    by (simp add: res attachFinancials_fields)
  have "order_findUnique db' orderId = Some (order res)"
    using look [of orderId] found ord by simp
  moreover have "\<forall>k. k \<noteq> orderId \<longrightarrow> order_findUnique db' k = order_findUnique db k"
    using look by simp
  moreover have "restaurants db' = restaurants db \<and> menuItems db' = menuItems db"
    by (simp add: db' order_update_def)
  ultimately show ?thesis
    using found by (simp add: ord apply_updateData_def)
qed

lemma ex_route_run:
  "updateOrderRoute ex_db ''order-2'' ''cust-1'' ex_eta_only
     = (Inr (attachFinancials (ex_order2\<lparr>pickupEtaMin := 25\<rparr>) None),
        order_update ex_db ''order-2'' (apply_updateData ex_eta_only))"
  by (simp add: updateOrderRoute_def ex_findUnique ex_eta_only_def ROUTE_UPDATEABLE_STATUSES_def
      apply_updateData_def ex_order2_def ex_order_def)

text \<open>Updating only the pickup time of the pending example order leaves its route alone.\<close>

theorem updateOrderRoute_merges_supplied_fields_witness:
  "routeOrigin (order (attachFinancials (ex_order2\<lparr>pickupEtaMin := 25\<rparr>) None)) = ''Raleigh''
   \<and> routeDestination (order (attachFinancials (ex_order2\<lparr>pickupEtaMin := 25\<rparr>) None)) = ''Durham''
   \<and> pickupEtaMin (order (attachFinancials (ex_order2\<lparr>pickupEtaMin := 25\<rparr>) None)) = 25
   \<and> status (order (attachFinancials (ex_order2\<lparr>pickupEtaMin := 25\<rparr>) None)) = PENDING
   \<and> order_findUnique (order_update ex_db ''order-2'' (apply_updateData ex_eta_only)) ''order-1''
       = Some ex_order1"
  using updateOrderRoute_merges_supplied_fields [OF ex_route_run]
  by (simp add: ex_findUnique ex_eta_only_def ex_order2_def ex_order_def attachFinancials_fields)

subsection \<open>Rounding to binary64\<close>

lemma pow2_pos: "0 < pow2 k"
  by (simp add: pow2_def)

lemma round_half_even_nonneg:
  assumes "0 \<le> num" "0 < den"
  shows "0 \<le> round_half_even num den"
proof -
  have fl: "0 \<le> num div den"
    using assms by (simp add: pos_imp_zdiv_nonneg_iff)
  have pick: "0 \<le> (if c1 then fl else if c2 then fl + 1 else if c3 then fl else fl + 1)"
    if "0 \<le> fl" for fl :: int and c1 c2 c3
    using that by simp
  show ?thesis
    unfolding round_half_even_def Let_def by (rule pick [OF fl])
qed

lemma double_of_ratio_nonneg:
  assumes "0 \<le> p" "0 < q"
  shows "\<exists>m k. double_of_ratio p q = Double m k \<and> 0 \<le> m"
proof (cases "p = 0")
  case True
  then show ?thesis by (simp add: double_of_ratio_def)
next
  case False
  with assms have sg: "sgn p = 1" and ab: "\<bar>p\<bar> = p" by simp_all
  have "0 \<le> round_half_even (p * pow2 a) (q * pow2 b)" for a b
    using assms pow2_pos [of a] pow2_pos [of b]
    by (intro round_half_even_nonneg) simp_all
  then show ?thesis
    using False by (simp add: double_of_ratio_def Let_def sg ab)
qed

lemma Math_round_nonneg:
  assumes "0 \<le> m"
  shows "0 \<le> Math_round (Double m k)"
proof -
  have "0 \<le> 2 * m * pow2 k + pow2 (- k)" "0 < 2 * pow2 (- k)"
    using assms pow2_pos [of k] pow2_pos [of "- k"] by simp_all
  then show ?thesis
    by (simp add: Math_round_def pos_imp_zdiv_nonneg_iff)
qed

lemma TAX_RATE_value: "TAX_RATE = Double 5944751508129055 (- 56)"
  by code_simp

lemma tax_nonneg:
  assumes "0 \<le> s"
  shows "0 \<le> Math_round (js_mul s TAX_RATE)"
proof -
  have "0 \<le> s * 5944751508129055 * pow2 (- 56)"
    using assms pow2_pos [of "- 56"] by simp
  from double_of_ratio_nonneg [OF this pow2_pos [of "- (- 56)"]]
  obtain m k where "js_mul s TAX_RATE = Double m k" "0 \<le> m"
    by (auto simp: js_mul_def TAX_RATE_value)
  then show ?thesis by (simp add: Math_round_nonneg)
qed


subsection \<open>Rounding to binary64 is exact for amounts of money\<close>

text \<open>
  The remaining lemmas of this part show that the binary64 arithmetic of the source does
  not disturb the rounding: for every revenue below \<open>2^52\<close> cents
  \<^verbatim>\<open>Math.round(revenue / count)\<close> is the exact quotient rounded to the nearest integer,
  and for every subtotal below \<open>2^40\<close> cents \<^verbatim>\<open>Math.round(subtotal * 0.0825)\<close> is
  8.25 percent of the subtotal rounded to the nearest integer, a tie going up in both.
\<close>

lemma bit_length_bounds:
  "0 < n \<Longrightarrow> 1 \<le> bit_length n \<and> 2 ^ nat (bit_length n - 1) \<le> n \<and> n < 2 ^ nat (bit_length n)"
proof (induction n rule: bit_length.induct)
  case (1 n)
  show ?case
  proof (cases "n = 1")
    case True
    then show ?thesis by (simp add: bit_length.simps [of 1] bit_length.simps [of 0])
  next
    case False
    with "1.prems" have half: "0 < n div 2" by simp
    with "1.prems" "1.IH" have
      ih: "1 \<le> bit_length (n div 2)"
        "2 ^ nat (bit_length (n div 2) - 1) \<le> n div 2"
        "n div 2 < 2 ^ nat (bit_length (n div 2))"
      by simp_all
    have bl: "bit_length n = 1 + bit_length (n div 2)"
      using "1.prems" by (subst bit_length.simps) simp
    have p1: "(2::int) ^ nat (bit_length n - 1) = 2 * 2 ^ nat (bit_length (n div 2) - 1)"
      using ih(1) by (simp add: bl nat_diff_distrib' flip: power_Suc)
    have p2: "(2::int) ^ nat (bit_length n) = 2 * 2 ^ nat (bit_length (n div 2))"
      using ih(1) by (simp add: bl nat_add_distrib)
    show ?thesis
      unfolding p1 p2 using ih bl by linarith
  qed
qed

lemma pow2_nonneg_arg: "0 \<le> k \<Longrightarrow> pow2 (- k) = 1"
  by (simp add: pow2_def)

lemma pow2_add: "0 \<le> a \<Longrightarrow> 0 \<le> b \<Longrightarrow> pow2 (a + b) = pow2 a * pow2 b"
  by (simp add: pow2_def nat_add_distrib power_add)

text \<open>The exponent is no larger than the bit length allows, and \<open>a / q\<close> is at least \<open>2^e\<close>.\<close>

lemma binary_exponent_upper:
  assumes "0 < a" "0 < q"
  shows "binary_exponent a q \<le> bit_length a - 1"
  using bit_length_bounds [OF assms(2)]
  by (simp add: binary_exponent_def Let_def)

lemma binary_exponent_lower:
  assumes a: "0 < a" and q: "0 < q"
  shows "q * pow2 (binary_exponent a q) \<le> a * pow2 (- binary_exponent a q)"
proof -
  let ?e0 = "bit_length a - bit_length q"
  show ?thesis
  proof (cases "q * pow2 ?e0 \<le> a * pow2 (- ?e0)")
    case True
    then show ?thesis by (simp add: binary_exponent_def Let_def)
  next
    case False
    then have e: "binary_exponent a q = ?e0 - 1"
      by (simp add: binary_exponent_def Let_def)
    from bit_length_bounds [OF a] have ba: "1 \<le> bit_length a" "pow2 (bit_length a - 1) \<le> a"
      by (simp_all add: pow2_def)
    from bit_length_bounds [OF q] have bq: "1 \<le> bit_length q" "q < pow2 (bit_length q)"
      by (simp_all add: pow2_def)
    show ?thesis
    proof (cases "1 \<le> ?e0")
      case True
      then have "pow2 (bit_length a - 1) = pow2 (bit_length q) * pow2 (?e0 - 1)"
        using bq(1) pow2_add [of "bit_length q" "?e0 - 1"] by (simp add: algebra_simps)
      moreover have "q * pow2 (?e0 - 1) \<le> pow2 (bit_length q) * pow2 (?e0 - 1)"
        using bq(2) pow2_pos [of "?e0 - 1"] by (simp add: mult_right_mono)
      ultimately have "q * pow2 (?e0 - 1) \<le> a"
        using ba(2) by linarith
      moreover have "pow2 (- (?e0 - 1)) = 1"
        using True pow2_nonneg_arg [of "?e0 - 1"] by simp
      ultimately show ?thesis by (simp add: e)
    next
      case False
      then have neg: "0 \<le> 1 - ?e0" by simp
      have "pow2 (bit_length q) = pow2 (bit_length a - 1) * pow2 (1 - ?e0)"
        using ba(1) neg pow2_add [of "bit_length a - 1" "1 - ?e0"] by (simp add: algebra_simps)
      moreover have "pow2 (bit_length a - 1) * pow2 (1 - ?e0) \<le> a * pow2 (1 - ?e0)"
        using ba(2) pow2_pos [of "1 - ?e0"] by (simp add: mult_right_mono)
      ultimately have "q \<le> a * pow2 (1 - ?e0)"
        using bq(2) by linarith
      moreover have "pow2 (?e0 - 1) = 1"
        using neg pow2_nonneg_arg [of "1 - ?e0"] by simp
      ultimately show ?thesis by (simp add: e)
    qed
  qed
qed

text \<open>The rounded quotient is within one half of the exact one.\<close>

lemma round_half_even_bounds:
  assumes "0 < den"
  shows "2 * num - den \<le> 2 * den * round_half_even num den"
    and "2 * den * round_half_even num den \<le> 2 * num + den"
proof -
  define fl where "fl = num div den"
  define r where "r = num mod den"
  have num: "num = den * fl + r" and r: "0 \<le> r" "r < den"
    using assms by (simp_all add: fl_def r_def)
  have m: "round_half_even num den = fl \<and> 2 * r \<le> den
         \<or> round_half_even num den = fl + 1 \<and> den \<le> 2 * r"
    unfolding round_half_even_def Let_def fl_def [symmetric] r_def [symmetric]
    by (simp split: if_splits)
  have prod: "2 * den * (fl + 1) = 2 * (den * fl) + 2 * den"
    by (simp add: algebra_simps)
  from m show "2 * num - den \<le> 2 * den * round_half_even num den"
  proof
    assume "round_half_even num den = fl \<and> 2 * r \<le> den"
    then show ?thesis unfolding num by (simp add: algebra_simps)
  next
    assume "round_half_even num den = fl + 1 \<and> den \<le> 2 * r"
    then show ?thesis unfolding num using r prod by (simp add: algebra_simps)
  qed
  from m show "2 * den * round_half_even num den \<le> 2 * num + den"
  proof
    assume "round_half_even num den = fl \<and> 2 * r \<le> den"
    then show ?thesis unfolding num using r by (simp add: algebra_simps)
  next
    assume "round_half_even num den = fl + 1 \<and> den \<le> 2 * r"
    then show ?thesis unfolding num using r prod by (simp add: algebra_simps)
  qed
qed

text \<open>
  When the exact quotient \<open>p / q\<close> is below \<open>2^52\<close> and no nearer than one rounding step
  to the next half-integer above, rounding it to binary64 does not change what
  \<^verbatim>\<open>Math.round\<close> returns: the exact quotient rounded to the nearest integer, a tie going
  up.
\<close>

lemma Math_round_double_of_ratio:
  assumes p: "0 < p" and q: "0 < q"
    and e: "binary_exponent p q \<le> 51"
    and lo: "2 * q * R \<le> 2 * p + q"
    and hi: "2 * p + q < 2 * q * R + 2 * q"
    and gap: "q < ((2 * R + 1) * q - 2 * p) * pow2 (52 - binary_exponent p q)"
  shows "Math_round (double_of_ratio p q) = R"
proof -
  define j where "j = 52 - binary_exponent p q"
  define P where "P = pow2 (j - 1)"
  define m where "m = round_half_even (p * (2 * P)) q"
  have j: "1 \<le> j" using e by (simp add: j_def)
  have P: "0 < P" by (simp add: P_def pow2_pos)
  have twoP: "pow2 j = 2 * P"
    using j pow2_add [of 1 "j - 1"] by (simp add: P_def pow2_def)
  have one: "pow2 (- j) = 1"
    using j pow2_nonneg_arg [of j] by simp
  have e1: "52 - binary_exponent p q = j" and e2: "binary_exponent p q - 52 = - j"
    by (simp_all add: j_def)
  have d: "double_of_ratio p q = Double m (- j)"
    using p by (simp add: double_of_ratio_def Let_def e1 e2 twoP one m_def)
  have round: "Math_round (double_of_ratio p q) = (2 * m + 2 * P) div (4 * P)"
    by (simp add: d Math_round_def one twoP)
  from round_half_even_bounds [OF q, of "p * (2 * P)"]
  have b1: "2 * (p * (2 * P)) - q \<le> 2 * q * m" and b2: "2 * q * m \<le> 2 * (p * (2 * P)) + q"
    by (simp_all add: m_def)
  define L where "L = (2 * R - 1) * P"
  define U where "U = (2 * R + 1) * P"
  have "(2 * R - 1) * q \<le> 2 * p" using lo by (simp add: algebra_simps)
  then have "((2 * R - 1) * q) * (2 * P) \<le> (2 * p) * (2 * P)"
    using P by (intro mult_right_mono) simp_all
  then have "2 * q * L \<le> 2 * (p * (2 * P))" by (simp add: L_def algebra_simps)
  with b1 have "2 * q * L - q \<le> 2 * q * m" by linarith
  then have "q * (2 * (L - 1) + 1) \<le> q * (2 * m)" by (simp add: algebra_simps)
  then have "2 * (L - 1) + 1 \<le> 2 * m" using q by simp
  then have lower: "L \<le> m" by presburger
  from gap have "q < ((2 * R + 1) * q - 2 * p) * (2 * P)"
    by (simp add: e1 twoP)
  then have "2 * (p * (2 * P)) + q < 2 * q * U" by (simp add: U_def algebra_simps)
  with b2 have "q * (2 * m) < q * (2 * U)" by (simp add: algebra_simps)
  then have upper: "m < U" using q by simp
  have LU: "2 * L + 2 * P = 4 * P * R" "2 * U + 2 * P = 4 * P * R + 4 * P"
    by (simp_all add: L_def U_def algebra_simps)
  have "4 * P * R \<le> 2 * m + 2 * P" using lower LU(1) by linarith
  moreover have "2 * m + 2 * P < 4 * P * R + 4 * P" using upper LU(2) by linarith
  ultimately have "(2 * m + 2 * P) div (4 * P) = R"
    using P by (intro int_div_pos_eq [where r = "2 * m + 2 * P - 4 * P * R"]) simp_all
  with round show ?thesis by simp
qed

lemma pow2_mono: "a \<le> b \<Longrightarrow> pow2 a \<le> pow2 b"
  by (simp add: pow2_def nat_mono power_increasing)

lemma binary_exponent_le: "binary_exponent a q \<le> bit_length a - bit_length q"
  by (simp add: binary_exponent_def Let_def)

lemma bit_length_le:
  assumes "0 < n" "n < 2 ^ k"
  shows "bit_length n \<le> int k"
proof -
  from bit_length_bounds [OF assms(1)] assms(2)
  have "(2::int) ^ nat (bit_length n - 1) < 2 ^ k" by linarith
  then have "nat (bit_length n - 1) < k" by simp
  then show ?thesis by linarith
qed

lemma Math_round_js_div:
  assumes a: "0 \<le> a" "a < 2 ^ 52" and n: "0 < n"
  shows "Math_round (js_div a n) = (2 * a + n) div (2 * n)"
proof (cases "a = 0")
  case True
  then show ?thesis
    using n by (simp add: js_div_def double_of_ratio_def Math_round_def pow2_def)
next
  case False
  with a have pos: "0 < a" by simp
  define R where "R = (2 * a + n) div (2 * n)"
  define e where "e = binary_exponent a n"
  have "2 * a + n = 2 * n * R + (2 * a + n) mod (2 * n)"
    by (simp add: R_def)
  moreover have "0 \<le> (2 * a + n) mod (2 * n)" "(2 * a + n) mod (2 * n) < 2 * n"
    using n by simp_all
  ultimately have lo: "2 * n * R \<le> 2 * a + n" and hi: "2 * a + n < 2 * n * R + 2 * n"
    by linarith+
  have "bit_length a \<le> 52"
    using bit_length_le [OF pos a(2)] by simp
  with binary_exponent_upper [OF pos n] have e51: "e \<le> 51"
    by (simp add: e_def)
  have low: "n * pow2 e \<le> a * pow2 (- e)"
    unfolding e_def by (rule binary_exponent_lower [OF pos n])
  have small: "n < pow2 (52 - e)"
  proof (cases "0 \<le> e")
    case True
    then have "pow2 (- e) = 1" by (rule pow2_nonneg_arg)
    with low a(2) have "n * pow2 e < 2 ^ 52" by simp
    also have "(2::int) ^ 52 = pow2 (52 - e) * pow2 e"
      using True e51 pow2_add [of "52 - e" e] by (simp add: pow2_def)
    finally show ?thesis using pow2_pos [of e] by simp
  next
    case False
    then have le: "0 \<le> - e" by simp
    then have "pow2 (- (- e)) = 1" by (rule pow2_nonneg_arg)
    with low have "n \<le> a * pow2 (- e)" by simp
    also have "a * pow2 (- e) < 2 ^ 52 * pow2 (- e)"
      using a(2) pow2_pos [of "- e"] by simp
    also have "(2::int) ^ 52 * pow2 (- e) = pow2 (52 - e)"
      using le pow2_add [of 52 "- e"] by (simp add: pow2_def)
    finally show ?thesis .
  qed
  have "1 \<le> (2 * R + 1) * n - 2 * a"
    using hi by (simp add: algebra_simps)
  then have "1 * pow2 (52 - e) \<le> ((2 * R + 1) * n - 2 * a) * pow2 (52 - e)"
    using pow2_pos [of "52 - e"] by (intro mult_right_mono) simp_all
  with small have gap: "n < ((2 * R + 1) * n - 2 * a) * pow2 (52 - e)"
    by simp
  have "Math_round (double_of_ratio a n) = R"
    using e51 gap unfolding e_def by (intro Math_round_double_of_ratio [OF pos n _ lo hi])
  then show ?thesis
    using n by (simp add: js_div_def R_def)
qed

lemma bit_length_2_56: "bit_length (2 ^ 56) = 57"
  by code_simp

lemma Math_round_tax:
  assumes s: "0 \<le> s" "s < 2 ^ 40"
  shows "Math_round (js_mul s TAX_RATE) = (33 * s + 200) div 400"
proof (cases "s = 0")
  case True
  then show ?thesis
    by (simp add: js_mul_def TAX_RATE_value double_of_ratio_def Math_round_def pow2_def)
next
  case False
  with s have pos: "0 < s" by simp
  define p where "p = s * 5944751508129055"
  define q :: int where "q = 2 ^ 56"
  define R where "R = (33 * s + 200) div 400"
  define e where "e = binary_exponent p q"
  have mul: "js_mul s TAX_RATE = double_of_ratio p q"
    by (simp add: js_mul_def TAX_RATE_value p_def q_def pow2_def)
  have p: "0 < p" "p < 2 ^ 93"
    using pos s by (simp_all add: p_def)
  have q: "0 < q" by (simp add: q_def)
  have "33 * s + 200 = 400 * R + (33 * s + 200) mod 400"
    by (simp add: R_def)
  moreover have "0 \<le> (33 * s + 200) mod 400" "(33 * s + 200) mod 400 < 400"
    by simp_all
  ultimately have R: "400 * R \<le> 33 * s + 200" "33 * s + 200 \<le> 400 * R + 399"
    by linarith+
  have lo: "2 * q * R \<le> 2 * p + q"
    using R(1) pos by (simp add: p_def q_def)
  have hi: "2 * p + q < 2 * q * R + 2 * q"
    using R(2) s by (simp add: p_def q_def)
  have "bit_length p \<le> 93"
    using bit_length_le [OF p] by simp
  moreover have "bit_length q = 57"
    unfolding q_def by (rule bit_length_2_56)
  ultimately have e36: "e \<le> 36"
    using binary_exponent_le [of p q] by (simp add: e_def)
  have big: "2 ^ 48 \<le> (2 * R + 1) * q - 2 * p"
    using R(2) s by (simp add: p_def q_def)
  have "pow2 16 \<le> pow2 (52 - e)"
    using e36 by (intro pow2_mono) simp
  then have "2 ^ 16 \<le> pow2 (52 - e)"
    by (simp add: pow2_def)
  with big have "2 ^ 48 * 2 ^ 16 \<le> ((2 * R + 1) * q - 2 * p) * pow2 (52 - e)"
    by (intro mult_mono) simp_all
  then have gap: "q < ((2 * R + 1) * q - 2 * p) * pow2 (52 - e)"
    by (simp add: q_def)
  have "Math_round (double_of_ratio p q) = R"
    using e36 gap unfolding e_def by (intro Math_round_double_of_ratio [OF p(1) q _ lo hi]) simp_all
  then show ?thesis
    by (simp add: mul R_def)
qed

subsection \<open>Order creation\<close>

lemma fold_add_sum: "fold (\<lambda>x acc. acc + f x) xs (a::int) = a + sum_list (map f xs)"
  by (induction xs arbitrary: a) simp_all

lemma calculateSubtotal_sum: "calculateSubtotal its = items_subtotal its"
  by (simp add: calculateSubtotal_def items_subtotal_def fold_add_sum)

lemma find_menuItem_Inr:
  "find_menuItem ms mid = Inr m \<longleftrightarrow> find (\<lambda>i. menuItem_id i = mid) ms = Some m"
  by (simp add: find_menuItem_def split: option.splits)

lemma subtotal_create:
  "subtotal_reduce ms its acc = Inr s \<Longrightarrow> create_items ms its = Inr cits \<Longrightarrow>
   s = acc + items_subtotal cits"
proof (induction its arbitrary: acc s cits)
  case Nil
  then show ?case by (simp add: items_subtotal_def)
next
  case (Cons item rest)
  then show ?case
    by (fastforce simp: items_subtotal_def split: sum.splits)
qed

lemma subtotal_reduce_sum:
  "subtotal_reduce ms its acc = Inr s \<Longrightarrow>
   (\<forall>item \<in> set its. \<exists>m. find (\<lambda>i. menuItem_id i = req_menuItemId item) ms = Some m)
   \<and> s = acc + (\<Sum>item\<leftarrow>its.
            (case find (\<lambda>i. menuItem_id i = req_menuItemId item) ms of
               None \<Rightarrow> 0 | Some m \<Rightarrow> menuItem_priceCents m) * req_quantity item)"
proof (induction its arbitrary: acc s)
  case Nil
  then show ?case by simp
next
  case (Cons item rest)
  then show ?case
    by (fastforce simp: find_menuItem_def split: sum.splits option.splits)
qed

lemma find_filter_distinct:
  assumes d: "distinct (map f xs)" and fnd: "find (\<lambda>m. f m = k) (filter Q xs) = Some m"
  shows "find (\<lambda>m. f m = k) xs = Some m"
proof -
  from fnd have m: "m \<in> set xs" "f m = k"
    by (auto simp: find_Some_iff dest: nth_mem)
  then obtain m' where m': "find (\<lambda>m. f m = k) xs = Some m'"
    by (cases "find (\<lambda>m. f m = k) xs") (auto simp: find_None_iff)
  then have "m' \<in> set xs" "f m' = k"
    by (auto simp: find_Some_iff dest: nth_mem)
  with m d have "m' = m"
    by (auto simp: distinct_map dest: inj_onD)
  with m' show ?thesis by simp
qed

lemma createOrder_Inr:
  assumes "createOrder gen db cid input = (Inr res, db')"
  shows "\<exists>restaurant.
           restaurant_findUnique db (req_restaurantId input) = Some restaurant
         \<and> length (menuItem_findMany db (map req_menuItemId (req_items input))
               (restaurant_id restaurant)) = length (req_items input)
         \<and> subtotal_reduce (menuItem_findMany db (map req_menuItemId (req_items input))
               (restaurant_id restaurant)) (req_items input) 0 = Inr (subtotalCents res)
         \<and> create_items (menuItem_findMany db (map req_menuItemId (req_items input))
               (restaurant_id restaurant)) (req_items input) = Inr (items (order res))
         \<and> taxCents res = Math_round (js_mul (subtotalCents res) TAX_RATE)
         \<and> totalCents (order res)
             = subtotalCents res + Math_round (js_mul (subtotalCents res) TAX_RATE)
         \<and> orders db' = orders db @ [order res]"
  using assms
  by (auto simp: createOrder_def Let_def attachFinancials_def
      split: option.splits if_splits sum.splits)

text \<open>
  Claim C2.  When \<^verbatim>\<open>createOrder\<close> succeeds (menu item ids being unique in the store),
  every requested item has a stored menu item; the annotated subtotal is the sum over the
  requested items of the stored price of the menu item times the requested quantity (the
  request carries no price); the annotated tax is \<^verbatim>\<open>Math.round(subtotal * 0.0825)\<close>,
  which for a subtotal from 0 to below \<open>2^40\<close> cents is 8.25 percent of the subtotal
  rounded to the nearest cent (a tie going up); the total of the order is subtotal plus
  tax; and the order is the one appended to the store.  This holds for every item list,
  the non-empty ones included.
\<close>

theorem createOrder_totals:
  assumes uniq: "distinct (map menuItem_id (menuItems db))"
    and run: "createOrder gen db cid input = (Inr res, db')"
  shows "(\<forall>item \<in> set (req_items input). stored_menuItem db (req_menuItemId item) \<noteq> None)
       \<and> subtotalCents res
           = (\<Sum>item\<leftarrow>req_items input.
                stored_priceCents db (req_menuItemId item) * req_quantity item)
       \<and> taxCents res = Math_round (js_mul (subtotalCents res) TAX_RATE)
       \<and> (0 \<le> subtotalCents res \<and> subtotalCents res < 2 ^ 40 \<longrightarrow>
             taxCents res = (33 * subtotalCents res + 200) div 400)
       \<and> totalCents (order res) = subtotalCents res + taxCents res
       \<and> orders db' = orders db @ [order res]"
proof -
  from createOrder_Inr [OF run] obtain restaurant :: Restaurant where
    sub: "subtotal_reduce (menuItem_findMany db (map req_menuItemId (req_items input))
               (restaurant_id restaurant)) (req_items input) 0 = Inr (subtotalCents res)"
    and res: "taxCents res = Math_round (js_mul (subtotalCents res) TAX_RATE)"
      "totalCents (order res)
         = subtotalCents res + Math_round (js_mul (subtotalCents res) TAX_RATE)"
      "orders db' = orders db @ [order res]"
    by blast
  let ?ms = "menuItem_findMany db (map req_menuItemId (req_items input)) (restaurant_id restaurant)"
  have stored: "find (\<lambda>i. menuItem_id i = k) ?ms = Some m \<Longrightarrow> stored_menuItem db k = Some m" for k m
    unfolding stored_menuItem_def menuItem_findMany_def
    by (rule find_filter_distinct [OF uniq])
  from subtotal_reduce_sum [OF sub]
  have all: "\<forall>item \<in> set (req_items input). \<exists>m. find (\<lambda>i. menuItem_id i = req_menuItemId item) ?ms = Some m"
    and s: "subtotalCents res = (\<Sum>item\<leftarrow>req_items input.
            (case find (\<lambda>i. menuItem_id i = req_menuItemId item) ?ms of
               None \<Rightarrow> 0 | Some m \<Rightarrow> menuItem_priceCents m) * req_quantity item)"
    by simp_all
  have same: "(case find (\<lambda>i. menuItem_id i = req_menuItemId item) ?ms of
               None \<Rightarrow> 0 | Some m \<Rightarrow> menuItem_priceCents m)
             = stored_priceCents db (req_menuItemId item)" if "item \<in> set (req_items input)" for item
  proof -
    from all that obtain m where m: "find (\<lambda>i. menuItem_id i = req_menuItemId item) ?ms = Some m"
      by blast
    with stored [OF m] show ?thesis by (simp add: stored_priceCents_def)
  qed
  have "subtotalCents res = (\<Sum>item\<leftarrow>req_items input.
                stored_priceCents db (req_menuItemId item) * req_quantity item)"
    unfolding s by (rule arg_cong [where f = sum_list], rule map_cong) (simp_all add: same)
  moreover have "\<forall>item \<in> set (req_items input). stored_menuItem db (req_menuItemId item) \<noteq> None"
    using all stored by fastforce
  ultimately show ?thesis using res Math_round_tax [of "subtotalCents res"] by simp
qed

lemma ex_tax: "Math_round (js_mul 1617 TAX_RATE) = 133"
  by code_simp

lemma ex_createOrder_run:
  "createOrder ex_gen ex_db ''cust-1'' ex_input
     = (Inr (attachFinancials ex_new_order (Some (1617, 133))),
        ex_db\<lparr>orders := orders ex_db @ [ex_new_order]\<rparr>)"
  by (simp add: createOrder_def restaurant_findUnique_def menuItem_findMany_def ex_db_def
      ex_menu_def ex_input_def ex_gen_def ex_new_order_def ex_item_def find_menuItem_def ex_tax
      attachFinancials_def Let_def)

lemma ex_menu_distinct: "distinct (map menuItem_id (menuItems ex_db))"
  by (simp add: ex_db_def ex_menu_def)

text \<open>
  A request for two burgers (stored at 462) and three fries (stored at 231) at the active
  restaurant: \<^verbatim>\<open>createOrder\<close> succeeds, with subtotal 1617, tax 133 and total 1750, and
  the order is appended to the store.
\<close>

theorem createOrder_totals_witness:
  "\<exists>res db'. createOrder ex_gen ex_db ''cust-1'' ex_input = (Inr res, db')
      \<and> subtotalCents res = 462 * 2 + 231 * 3
      \<and> taxCents res = 133
      \<and> totalCents (order res) = 1617 + 133
      \<and> orders db' = orders ex_db @ [order res]"
proof -
  let ?res = "attachFinancials ex_new_order (Some (1617, 133))"
  let ?db = "ex_db\<lparr>orders := orders ex_db @ [ex_new_order]\<rparr>"
  from createOrder_totals [OF ex_menu_distinct ex_createOrder_run]
  have sub: "subtotalCents ?res
           = (\<Sum>item\<leftarrow>req_items ex_input.
                stored_priceCents ex_db (req_menuItemId item) * req_quantity item)"
    and tax: "0 \<le> subtotalCents ?res \<and> subtotalCents ?res < 2 ^ 40 \<longrightarrow>
             taxCents ?res = (33 * subtotalCents ?res + 200) div 400"
    and tot: "totalCents (order ?res) = subtotalCents ?res + taxCents ?res"
    and stored: "orders ?db = orders ex_db @ [order ?res]"
    by blast+
  have s: "subtotalCents ?res = 462 * 2 + 231 * 3"
    unfolding sub
    by (simp add: ex_input_def stored_priceCents_def stored_menuItem_def ex_db_def ex_menu_def)
  with tax have t: "taxCents ?res = 133" by simp
  from tot s t have "totalCents (order ?res) = 1617 + 133" by simp
  with ex_createOrder_run s t stored show ?thesis by blast
qed

text \<open>
  What \<^verbatim>\<open>createOrder\<close> does in every case (menu item ids being unique in the store): it
  fails with status 404 when no active restaurant has the requested id; otherwise it
  succeeds when the requested menu item ids are pairwise distinct and each resolves to an
  available item of the restaurant, and fails with status 400 when one of them does not
  resolve or when an id is requested twice.
\<close>

lemma findMany_ids:
  "menuItem_id ` set (menuItem_findMany db ids rid) = {mid \<in> set ids. resolves db rid mid}"
  by (auto simp: menuItem_findMany_def resolves_def)

lemma findMany_length_iff:
  assumes uniq: "distinct (map menuItem_id (menuItems db))"
  shows "length (menuItem_findMany db ids rid) = length ids
           \<longleftrightarrow> distinct ids \<and> (\<forall>mid \<in> set ids. resolves db rid mid)"
proof -
  let ?ms = "menuItem_findMany db ids rid"
  let ?R = "{mid \<in> set ids. resolves db rid mid}"
  have "distinct (map menuItem_id ?ms)"
    unfolding menuItem_findMany_def using uniq by (rule distinct_map_filter)
  then have "card (set (map menuItem_id ?ms)) = length (map menuItem_id ?ms)"
    by (rule distinct_card)
  then have len: "length ?ms = card ?R"
    by (simp add: findMany_ids)
  have sub: "?R \<subseteq> set ids" by auto
  then have le1: "card ?R \<le> card (set ids)"
    by (intro card_mono) simp_all
  have le2: "card (set ids) \<le> length ids"
    by (rule card_length)
  show ?thesis
  proof
    assume "length ?ms = length ids"
    with len le1 le2 have c1: "card (set ids) = length ids" and c2: "card ?R = card (set ids)"
      by simp_all
    from c1 have "distinct ids" by (rule card_distinct)
    moreover from sub c2 have "?R = set ids"
      by (intro card_subset_eq) simp_all
    ultimately show "distinct ids \<and> (\<forall>mid \<in> set ids. resolves db rid mid)"
      by auto
  next
    assume a: "distinct ids \<and> (\<forall>mid \<in> set ids. resolves db rid mid)"
    then have "?R = set ids" by auto
    with len a show "length ?ms = length ids"
      by (simp add: distinct_card)
  qed
qed

lemma reduce_succeeds:
  assumes "\<forall>item \<in> set its. req_menuItemId item \<in> menuItem_id ` set ms"
  shows "\<exists>s. subtotal_reduce ms its acc = Inr s"
  using assms
proof (induction its arbitrary: acc)
  case Nil
  then show ?case by simp
next
  case (Cons item rest)
  then obtain m where "find (\<lambda>i. menuItem_id i = req_menuItemId item) ms = Some m"
    by (cases "find (\<lambda>i. menuItem_id i = req_menuItemId item) ms")
      (auto simp: find_None_iff)
  with Cons show ?case by (simp add: find_menuItem_def)
qed

lemma create_items_succeeds:
  assumes "\<forall>item \<in> set its. req_menuItemId item \<in> menuItem_id ` set ms"
  shows "\<exists>c. create_items ms its = Inr c"
  using assms
proof (induction its)
  case Nil
  then show ?case by simp
next
  case (Cons item rest)
  then obtain m where "find (\<lambda>i. menuItem_id i = req_menuItemId item) ms = Some m"
    by (cases "find (\<lambda>i. menuItem_id i = req_menuItemId item) ms")
      (auto simp: find_None_iff)
  moreover from Cons obtain c where "create_items ms rest = Inr c" by auto
  ultimately show ?case by (simp add: find_menuItem_def)
qed

lemma createOrder_outcome:
  assumes uniq: "distinct (map menuItem_id (menuItems db))"
  shows "(restaurant_findUnique db (req_restaurantId input) = None \<longrightarrow>
            createOrder gen db cid input = (Inl (HttpError 404 ''Restaurant not found''), db))
       \<and> (\<forall>r. restaurant_findUnique db (req_restaurantId input) = Some r \<longrightarrow>
             (if distinct (map req_menuItemId (req_items input))
                 \<and> (\<forall>item \<in> set (req_items input).
                       resolves db (restaurant_id r) (req_menuItemId item))
              then \<exists>res db'. createOrder gen db cid input = (Inr res, db')
              else createOrder gen db cid input
                     = (Inl (HttpError 400 ''Some menu items are unavailable''), db)))"
proof (intro conjI allI impI)
  assume "restaurant_findUnique db (req_restaurantId input) = None"
  then show "createOrder gen db cid input = (Inl (HttpError 404 ''Restaurant not found''), db)"
    by (simp add: createOrder_def)
next
  fix r
  assume r: "restaurant_findUnique db (req_restaurantId input) = Some r"
  let ?ids = "map req_menuItemId (req_items input)"
  let ?ms = "menuItem_findMany db ?ids (restaurant_id r)"
  have len: "length ?ms = length (req_items input)
           \<longleftrightarrow> distinct ?ids \<and> (\<forall>item \<in> set (req_items input).
                                  resolves db (restaurant_id r) (req_menuItemId item))"
    using findMany_length_iff [OF uniq, of ?ids "restaurant_id r"] by simp
  show "if distinct ?ids \<and> (\<forall>item \<in> set (req_items input).
                              resolves db (restaurant_id r) (req_menuItemId item))
        then \<exists>res db'. createOrder gen db cid input = (Inr res, db')
        else createOrder gen db cid input
               = (Inl (HttpError 400 ''Some menu items are unavailable''), db)"
  proof (cases "length ?ms = length (req_items input)")
    case True
    with len have ok: "distinct ?ids"
      "\<forall>item \<in> set (req_items input). resolves db (restaurant_id r) (req_menuItemId item)"
      by simp_all
    have "\<forall>item \<in> set (req_items input). req_menuItemId item \<in> menuItem_id ` set ?ms"
      using ok(2) by (simp add: findMany_ids)
    from reduce_succeeds [OF this, of 0] create_items_succeeds [OF this]
    obtain s c where "subtotal_reduce ?ms (req_items input) 0 = Inr s"
      "create_items ?ms (req_items input) = Inr c"
      by blast
    with r True have "\<exists>res db'. createOrder gen db cid input = (Inr res, db')"
      by (simp add: createOrder_def Let_def)
    with ok show ?thesis by simp
  next
    case False
    with r have "createOrder gen db cid input
               = (Inl (HttpError 400 ''Some menu items are unavailable''), db)"
      by (simp add: createOrder_def Let_def)
    with False len show ?thesis by auto
  qed
qed

text \<open>
  Claim C3 fails on the code for a request that names the same menu item twice: both
  requested ids resolve to an available menu item of the active restaurant, the query
  returns that menu item once, the lengths differ, and the request is rejected with
  status 400.
\<close>

lemma ex_dup_run:
  "createOrder ex_gen ex_db ''cust-1'' ex_dup_input
     = (Inl (HttpError 400 ''Some menu items are unavailable''), ex_db)"
  by (simp add: createOrder_def restaurant_findUnique_def menuItem_findMany_def ex_db_def
      ex_menu_def ex_dup_input_def)

theorem createOrder_rejects_duplicate_ids:
  "map req_menuItemId (req_items ex_dup_input) = [''item-1'', ''item-1'']
   \<and> resolves ex_db ''rest-1'' ''item-1''
   \<and> restaurant_findUnique ex_db (req_restaurantId ex_dup_input)
       = Some \<lparr>restaurant_id = ''rest-1'', isActive = True\<rparr>
   \<and> createOrder ex_gen ex_db ''cust-1'' ex_dup_input
       = (Inl (HttpError 400 ''Some menu items are unavailable''), ex_db)"
  using ex_dup_run
  by (simp add: resolves_def restaurant_findUnique_def ex_db_def ex_menu_def ex_dup_input_def)

subsection \<open>Derived financial fields\<close>

lemma attachFinancials_None_derived: "derived_financials (attachFinancials ord None)"
  by (simp add: derived_financials_def attachFinancials_fields calculateSubtotal_sum)

lemma subtotal_reduce_nonneg:
  assumes "subtotal_reduce ms its acc = Inr s" "0 \<le> acc"
    and "\<forall>m \<in> set ms. 0 \<le> menuItem_priceCents m"
    and "\<forall>item \<in> set its. 0 \<le> req_quantity item"
  shows "0 \<le> s"
  using assms
proof (induction its arbitrary: acc)
  case Nil
  then show ?case by simp
next
  case (Cons item rest)
  from Cons.prems(1) obtain m where
    m: "find (\<lambda>i. menuItem_id i = req_menuItemId item) ms = Some m"
    and rest: "subtotal_reduce ms rest (acc + menuItem_priceCents m * req_quantity item) = Inr s"
    by (auto simp: find_menuItem_def split: option.splits)
  from m have "m \<in> set ms" by (auto simp: find_Some_iff)
  with Cons.prems have "0 \<le> acc + menuItem_priceCents m * req_quantity item" by simp
  from Cons.IH [OF rest this] Cons.prems show ?case by simp
qed

lemma createOrder_derived:
  assumes prices: "\<forall>m \<in> set (menuItems db). 0 \<le> menuItem_priceCents m"
    and qty: "\<forall>item \<in> set (req_items input). 0 \<le> req_quantity item"
    and run: "createOrder gen db cid input = (Inr a, db')"
  shows "derived_financials a"
proof -
  from createOrder_Inr [OF run] obtain restaurant :: Restaurant where
    sub: "subtotal_reduce (menuItem_findMany db (map req_menuItemId (req_items input))
               (restaurant_id restaurant)) (req_items input) 0 = Inr (subtotalCents a)"
    and its: "create_items (menuItem_findMany db (map req_menuItemId (req_items input))
               (restaurant_id restaurant)) (req_items input) = Inr (items (order a))"
    and tax: "taxCents a = Math_round (js_mul (subtotalCents a) TAX_RATE)"
    and tot: "totalCents (order a)
         = subtotalCents a + Math_round (js_mul (subtotalCents a) TAX_RATE)"
    by blast
  have "\<forall>m \<in> set (menuItem_findMany db (map req_menuItemId (req_items input))
               (restaurant_id restaurant)). 0 \<le> menuItem_priceCents m"
    using prices by (simp add: menuItem_findMany_def)
  from subtotal_reduce_nonneg [OF sub _ this qty] have "0 \<le> subtotalCents a" by simp
  then have "0 \<le> taxCents a" unfolding tax by (rule tax_nonneg)
  moreover from subtotal_create [OF sub its]
  have "subtotalCents a = items_subtotal (items (order a))" by simp
  ultimately show ?thesis
    using tax tot by (simp add: derived_financials_def)
qed

text \<open>
  Claim C10.  Every order that an operation of the order service returns is annotated with
  the subtotal of its items (the sum of price times quantity) and with the tax
  \<open>max (total - subtotal) 0\<close>: the orders listed for a customer or a restaurant, the order
  read for a customer, the order returned by a status update or a route update, and the
  order returned by \<^verbatim>\<open>createOrder\<close> for stored prices and requested quantities that are
  not negative (the request validation admits no others).  So the tax is never negative,
  and subtotal plus tax is the total exactly when the subtotal does not exceed the total.
\<close>

theorem financials_annotation:
  "((\<forall>m \<in> set (menuItems db). 0 \<le> menuItem_priceCents m)
      \<and> (\<forall>item \<in> set (req_items input). 0 \<le> req_quantity item)
      \<and> createOrder gen db cid input = (Inr a, db') \<longrightarrow> derived_financials a)
   \<and> (\<forall>b \<in> set (listOrdersForUser db cid). derived_financials b)
   \<and> (\<forall>b \<in> set (listOrdersForRestaurant db rid). derived_financials b)
   \<and> (getOrderForCustomer db orderId cid = Inr a \<longrightarrow> derived_financials a)
   \<and> (updateOrderStatusForRestaurant db rid orderId t = (Inr a, db') \<longrightarrow> derived_financials a)
   \<and> (updateOrderRoute db orderId cid upd = (Inr a, db') \<longrightarrow> derived_financials a)
   \<and> (derived_financials a \<longrightarrow>
         0 \<le> taxCents a
         \<and> (subtotalCents a + taxCents a = totalCents (order a)
              \<longleftrightarrow> subtotalCents a \<le> totalCents (order a)))"
proof (intro conjI)
  show "(\<forall>m \<in> set (menuItems db). 0 \<le> menuItem_priceCents m)
      \<and> (\<forall>item \<in> set (req_items input). 0 \<le> req_quantity item)
      \<and> createOrder gen db cid input = (Inr a, db') \<longrightarrow> derived_financials a"
    using createOrder_derived by blast
  show "\<forall>b \<in> set (listOrdersForUser db cid). derived_financials b"
    by (auto simp: listOrdersForUser_def attachFinancials_None_derived)
  show "\<forall>b \<in> set (listOrdersForRestaurant db rid). derived_financials b"
    by (auto simp: listOrdersForRestaurant_def attachFinancials_None_derived)
  show "getOrderForCustomer db orderId cid = Inr a \<longrightarrow> derived_financials a"
    by (auto simp: getOrderForCustomer_def attachFinancials_None_derived
        split: option.splits if_splits)
  show "updateOrderStatusForRestaurant db rid orderId t = (Inr a, db') \<longrightarrow> derived_financials a"
    by (auto simp: updateOrderStatusForRestaurant_def attachFinancials_None_derived
        split: option.splits if_splits)
  show "updateOrderRoute db orderId cid upd = (Inr a, db') \<longrightarrow> derived_financials a"
    by (auto simp: updateOrderRoute_def attachFinancials_None_derived
        split: option.splits if_splits)
  show "derived_financials a \<longrightarrow>
         0 \<le> taxCents a
         \<and> (subtotalCents a + taxCents a = totalCents (order a)
              \<longleftrightarrow> subtotalCents a \<le> totalCents (order a))"
    by (auto simp: derived_financials_def)
qed

lemma ex_getOrder_run:
  "getOrderForCustomer ex_db ''order-2'' ''cust-1'' = Inr (attachFinancials ex_order2 None)"
  by (simp add: getOrderForCustomer_def ex_findUnique ex_order2_def ex_order_fields)

text \<open>
  The order created above (subtotal 1617, tax 133, total 1750) and the pending example
  order as read back (one burger at 462, total 500, so tax 38).
\<close>

theorem financials_annotation_witness:
  "derived_financials (attachFinancials ex_new_order (Some (1617, 133)))
   \<and> 0 \<le> taxCents (attachFinancials ex_new_order (Some (1617, 133)))
   \<and> derived_financials (attachFinancials ex_order2 None)
   \<and> subtotalCents (attachFinancials ex_order2 None) = 462
   \<and> taxCents (attachFinancials ex_order2 None) = 38"
proof -
  have prices: "\<forall>m \<in> set (menuItems ex_db). 0 \<le> menuItem_priceCents m"
    by (simp add: ex_db_def ex_menu_def)
  have qty: "\<forall>item \<in> set (req_items ex_input). 0 \<le> req_quantity item"
    by (simp add: ex_input_def)
  have new: "derived_financials (attachFinancials ex_new_order (Some (1617, 133)))"
    and tax: "0 \<le> taxCents (attachFinancials ex_new_order (Some (1617, 133)))"
    using financials_annotation [where db = ex_db and input = ex_input and gen = ex_gen
        and cid = "''cust-1''" and a = "attachFinancials ex_new_order (Some (1617, 133))"
        and db' = "ex_db\<lparr>orders := orders ex_db @ [ex_new_order]\<rparr>"]
      prices qty ex_createOrder_run
    by blast+
  have old: "derived_financials (attachFinancials ex_order2 None)"
    using financials_annotation [where db = ex_db and orderId = "''order-2''"
        and cid = "''cust-1''" and a = "attachFinancials ex_order2 None"]
      ex_getOrder_run
    by blast
  have "subtotalCents (attachFinancials ex_order2 None) = 462"
    "taxCents (attachFinancials ex_order2 None) = 38"
    by (simp_all add: attachFinancials_fields calculateSubtotal_def ex_order2_def ex_order_def
        ex_item_def)
  with new tax old show ?thesis by simp
qed

subsection \<open>Maps in insertion order\<close>

lemma Map_get_Map_set: "Map_get (Map_set m k v) k' = (if k' = k then Some v else Map_get m k')"
  by (induction m) auto

lemma Map_get_None_iff: "Map_get m k = None \<longleftrightarrow> k \<notin> fst ` set m"
  by (induction m) (force split: if_splits)+

lemma Map_get_Some_mem: "Map_get m k = Some v \<Longrightarrow> (k, v) \<in> set m"
  by (induction m) (auto split: if_splits)

lemma Map_get_distinct: "distinct (map fst m) \<Longrightarrow> (k, v) \<in> set m \<Longrightarrow> Map_get m k = Some v"
  by (induction m) (auto simp: rev_image_eqI)

lemma keys_Map_set:
  "map fst (Map_set m k v) = (if k \<in> fst ` set m then map fst m else map fst m @ [k])"
  by (induction m) (force split: if_splits)+

lemma Map_get_const: "Map_get (map (\<lambda>x. (f x, v)) xs) k = (if k \<in> f ` set xs then Some v else None)"
  by (induction xs) auto

subsection \<open>Peak hours\<close>

lemma Date_getHours_range: "0 \<le> Date_getHours tz t \<and> Date_getHours tz t < 24"
  by (simp add: Date_getHours_def)

lemma hour_in_init: "0 \<le> h \<Longrightarrow> h < 24 \<Longrightarrow> h \<in> int ` set [0..<24]"
  by (rule image_eqI [where x = "nat h"]) auto

lemma hourMap_init_get:
  "Map_get hourMap_init h = (if 0 \<le> h \<and> h < 24 then Some (0, 0) else None)"
  unfolding hourMap_init_def Map_get_const using hour_in_init by auto

lemma hourMap_init_keys: "map fst hourMap_init = map int [0..<24]"
  by (simp add: hourMap_init_def comp_def)

lemma peak_aggregate_result:
  assumes "\<forall>ord \<in> set ords. Date_getHours tz (createdAt ord) \<in> fst ` set hm"
  shows "\<exists>hm'. peak_aggregate tz ords hm = Inr hm'
           \<and> map fst hm' = map fst hm
           \<and> (\<forall>h c r. Map_get hm h = Some (c, r) \<longrightarrow>
                 Map_get hm' h
                   = Some (c + int (length (filter (\<lambda>ord. Date_getHours tz (createdAt ord) = h) ords)),
                           r + (\<Sum>ord\<leftarrow>filter (\<lambda>ord. Date_getHours tz (createdAt ord) = h) ords.
                                  totalCents ord)))"
  using assms
proof (induction ords arbitrary: hm)
  case Nil
  then show ?case by simp
next
  case (Cons ord rest)
  let ?h = "Date_getHours tz (createdAt ord)"
  from Cons.prems have "?h \<in> fst ` set hm" by simp
  then obtain c0 r0 where get: "Map_get hm ?h = Some (c0, r0)"
    by (cases "Map_get hm ?h") (auto simp: Map_get_None_iff)
  let ?hm1 = "Map_set hm ?h (c0 + 1, r0 + totalCents ord)"
  have keys1: "map fst ?hm1 = map fst hm"
    using \<open>?h \<in> fst ` set hm\<close> by (simp add: keys_Map_set)
  then have "fst ` set ?hm1 = fst ` set hm"
    by (metis list.set_map)
  with Cons.prems have "\<forall>ord \<in> set rest. Date_getHours tz (createdAt ord) \<in> fst ` set ?hm1"
    by simp
  from Cons.IH [OF this] obtain hm' where
    run: "peak_aggregate tz rest ?hm1 = Inr hm'"
    and keys: "map fst hm' = map fst ?hm1"
    and vals: "\<And>h c r. Map_get ?hm1 h = Some (c, r) \<Longrightarrow>
                 Map_get hm' h
                   = Some (c + int (length (filter (\<lambda>ord. Date_getHours tz (createdAt ord) = h) rest)),
                           r + (\<Sum>ord\<leftarrow>filter (\<lambda>ord. Date_getHours tz (createdAt ord) = h) rest.
                                  totalCents ord))"
    by blast
  have "peak_aggregate tz (ord # rest) hm = Inr hm'"
    using get run by (simp add: Let_def)
  moreover have "map fst hm' = map fst hm"
    using keys keys1 by simp
  moreover have "Map_get hm' h
                   = Some (c + int (length (filter (\<lambda>ord. Date_getHours tz (createdAt ord) = h) (ord # rest))),
                           r + (\<Sum>ord\<leftarrow>filter (\<lambda>ord. Date_getHours tz (createdAt ord) = h) (ord # rest).
                                  totalCents ord))"
    if "Map_get hm h = Some (c, r)" for h c r
  proof (cases "h = ?h")
    case True
    with that get have "c = c0" "r = r0" by simp_all
    with True vals [of h "c0 + 1" "r0 + totalCents ord"] show ?thesis
      by (simp add: Map_get_Map_set)
  next
    case False
    with that vals [of h c r] show ?thesis
      by (simp add: Map_get_Map_set)
  qed
  ultimately show ?case by blast
qed

lemma sorted_desc:
  "sorted_wrt (\<lambda>a b. f b \<le> (f a :: int)) (sort_key (\<lambda>a. - f a) xs)"
proof -
  have "sorted (map (\<lambda>a. - f a) (sort_key (\<lambda>a. - f a) xs))"
    by (rule sorted_sort_key)
  then show ?thesis
    by (simp add: sorted_map)
qed

lemma distinct_map_sort_key:
  "distinct (map f (sort_key g xs)) = distinct (map f xs)"
  by (simp add: distinct_map)

lemma hours_set: "set (map int [0..<24]) = {0..23}"
proof -
  have "set (map int [0..<24]) = {int 0..<int 24}"
    by (simp only: set_map set_upt image_int_atLeastLessThan)
  then show ?thesis by auto
qed

lemma getPeakTimes_Inr:
  "\<exists>hm. getPeakTimes tz db rid = Inr (sort_key (\<lambda>a. - pt_orderCount a) (map toPeakTime hm))
      \<and> map fst hm = map int [0..<24]
      \<and> (\<forall>h. 0 \<le> h \<and> h < 24 \<longrightarrow>
            Map_get hm h
              = Some (int (length (filter (\<lambda>ord. Date_getHours tz (createdAt ord) = h)
                                      (notCanceledOf db rid))),
                      \<Sum>ord\<leftarrow>filter (\<lambda>ord. Date_getHours tz (createdAt ord) = h)
                                  (notCanceledOf db rid). totalCents ord))"
proof -
  have "\<forall>ord \<in> set (notCanceledOf db rid). Date_getHours tz (createdAt ord) \<in> fst ` set hourMap_init"
    using Date_getHours_range hourMap_init_get [of "Date_getHours tz t" for t]
    by (metis Map_get_None_iff option.distinct(1))
  from peak_aggregate_result [OF this] obtain hm where
    run: "peak_aggregate tz (notCanceledOf db rid) hourMap_init = Inr hm"
    and keys: "map fst hm = map fst hourMap_init"
    and vals: "\<And>h c r. Map_get hourMap_init h = Some (c, r) \<Longrightarrow>
                 Map_get hm h
                   = Some (c + int (length (filter (\<lambda>ord. Date_getHours tz (createdAt ord) = h)
                                            (notCanceledOf db rid))),
                           r + (\<Sum>ord\<leftarrow>filter (\<lambda>ord. Date_getHours tz (createdAt ord) = h)
                                            (notCanceledOf db rid). totalCents ord))"
    by blast
  have "getPeakTimes tz db rid = Inr (sort_key (\<lambda>a. - pt_orderCount a) (map toPeakTime hm))"
    by (simp add: getPeakTimes_def run)
  moreover have "map fst hm = map int [0..<24]"
    using keys hourMap_init_keys by simp
  moreover have "Map_get hm h
              = Some (int (length (filter (\<lambda>ord. Date_getHours tz (createdAt ord) = h)
                                      (notCanceledOf db rid))),
                      \<Sum>ord\<leftarrow>filter (\<lambda>ord. Date_getHours tz (createdAt ord) = h)
                                  (notCanceledOf db rid). totalCents ord)"
    if "0 \<le> h \<and> h < 24" for h
    using vals [of h 0 0] that by (simp add: hourMap_init_get)
  ultimately show ?thesis by blast
qed

text \<open>
  Claim C5, for the analytics service.  For every store (an empty one included)
  \<^verbatim>\<open>getPeakTimes\<close> returns a list of exactly 24 entries whose hours are the hours 0 to 23,
  each once; the order count of an entry is the number of the restaurant's orders that are
  not canceled and were created in that hour (local time), its revenue is the sum of their
  totals (both 0 for an hour without orders); and the list is in descending order of order
  count.  The dashboard computes its peak hours differently; see the last subsection.
\<close>

theorem getPeakTimes_buckets:
  "\<exists>pts. getPeakTimes tz db rid = Inr pts
      \<and> length pts = 24
      \<and> distinct (map pt_hour pts)
      \<and> set (map pt_hour pts) = {0..23}
      \<and> (\<forall>p \<in> set pts.
            pt_orderCount p
              = int (length (filter (\<lambda>ord. restaurantId ord = rid \<and> status ord \<noteq> CANCELED
                                      \<and> Date_getHours tz (createdAt ord) = pt_hour p) (orders db)))
          \<and> pt_revenueCents p
              = (\<Sum>ord\<leftarrow>filter (\<lambda>ord. restaurantId ord = rid \<and> status ord \<noteq> CANCELED
                                      \<and> Date_getHours tz (createdAt ord) = pt_hour p) (orders db).
                   totalCents ord))
      \<and> sorted_wrt (\<lambda>a b. pt_orderCount b \<le> pt_orderCount a) pts"
proof -
  from getPeakTimes_Inr [of tz db rid] obtain hm where
    run: "getPeakTimes tz db rid = Inr (sort_key (\<lambda>a. - pt_orderCount a) (map toPeakTime hm))"
    and keys: "map fst hm = map int [0..<24]"
    and vals: "\<And>h. 0 \<le> h \<and> h < 24 \<Longrightarrow>
            Map_get hm h
              = Some (int (length (filter (\<lambda>ord. Date_getHours tz (createdAt ord) = h)
                                      (notCanceledOf db rid))),
                      \<Sum>ord\<leftarrow>filter (\<lambda>ord. Date_getHours tz (createdAt ord) = h)
                                  (notCanceledOf db rid). totalCents ord)"
    by blast
  let ?pts = "sort_key (\<lambda>a. - pt_orderCount a) (map toPeakTime hm)"
  have hours: "map pt_hour (map toPeakTime hm) = map int [0..<24]"
    using keys by (simp add: toPeakTime_def comp_def)
  have len: "length ?pts = 24"
    using arg_cong [OF keys, of length] by simp
  have dist: "distinct (map pt_hour ?pts)"
    unfolding distinct_map_sort_key hours by (simp add: distinct_map)
  have "set (map pt_hour ?pts) = set (map pt_hour (map toPeakTime hm))"
    by (simp del: map_map)
  also have "\<dots> = {0..23}"
    unfolding hours by (rule hours_set)
  finally have hs: "set (map pt_hour ?pts) = {0..23}" .
  have dk: "distinct (map fst hm)"
    unfolding keys by (simp add: distinct_map)
  have entry: "pt_orderCount p
              = int (length (filter (\<lambda>ord. restaurantId ord = rid \<and> status ord \<noteq> CANCELED
                                      \<and> Date_getHours tz (createdAt ord) = pt_hour p) (orders db)))
          \<and> pt_revenueCents p
              = (\<Sum>ord\<leftarrow>filter (\<lambda>ord. restaurantId ord = rid \<and> status ord \<noteq> CANCELED
                                      \<and> Date_getHours tz (createdAt ord) = pt_hour p) (orders db).
                   totalCents ord)"
    if "p \<in> set ?pts" for p
  proof -
    from that obtain h c r where mem: "(h, c, r) \<in> set hm" and p: "p = toPeakTime (h, c, r)"
      by auto
    from mem have "h \<in> set (map fst hm)" by force
    then have range: "0 \<le> h \<and> h < 24" unfolding keys hours_set by auto
    from Map_get_distinct [OF dk mem] vals [OF range]
    have "c = int (length (filter (\<lambda>ord. Date_getHours tz (createdAt ord) = h)
                                      (notCanceledOf db rid)))"
      and "r = (\<Sum>ord\<leftarrow>filter (\<lambda>ord. Date_getHours tz (createdAt ord) = h)
                                  (notCanceledOf db rid). totalCents ord)"
      by simp_all
    then show ?thesis
      by (simp add: p toPeakTime_def notCanceledOf_def conj_commute conj_left_commute)
  qed
  have "sorted_wrt (\<lambda>a b. pt_orderCount b \<le> pt_orderCount a) ?pts"
    by (rule sorted_desc)
  with run len dist hs entry show ?thesis by blast
qed

lemma empty_notCanceled: "notCanceledOf empty_db rid = []"
  by (simp add: notCanceledOf_def empty_db_def)

text \<open>On the empty store all 24 entries are there, each with count 0 and revenue 0.\<close>

theorem getPeakTimes_buckets_witness:
  "\<exists>pts. getPeakTimes 0 empty_db ''rest-1'' = Inr pts
      \<and> length pts = 24
      \<and> set (map pt_hour pts) = {0..23}
      \<and> list_all (\<lambda>p. pt_orderCount p = 0 \<and> pt_revenueCents p = 0) pts"
  using getPeakTimes_buckets [of 0 empty_db "''rest-1''"]
  by (auto simp: list_all_iff empty_db_def)

subsection \<open>Canceled orders and the totals\<close>

lemma notCanceledOf_kept:
  "notCanceledOf (db\<lparr>orders := filter (\<lambda>ord. status ord \<noteq> CANCELED) (orders db)\<rparr>) rid
     = notCanceledOf db rid"
  by (auto simp: notCanceledOf_def intro: filter_cong)

lemma analytics_kept:
  "getRestaurantAnalytics_dashboard tz
      (db\<lparr>orders := filter (\<lambda>ord. status ord \<noteq> CANCELED) (orders db)\<rparr>) rid
     = getRestaurantAnalytics_dashboard tz db rid"
  "getPopularItems (db\<lparr>orders := filter (\<lambda>ord. status ord \<noteq> CANCELED) (orders db)\<rparr>) rid limit
     = getPopularItems db rid limit"
  "getPeakTimes tz (db\<lparr>orders := filter (\<lambda>ord. status ord \<noteq> CANCELED) (orders db)\<rparr>) rid
     = getPeakTimes tz db rid"
  "getRestaurantAnalytics tz
      (db\<lparr>orders := filter (\<lambda>ord. status ord \<noteq> CANCELED) (orders db)\<rparr>) rid limit
     = getRestaurantAnalytics tz db rid limit"
  by (simp_all only: getRestaurantAnalytics_dashboard_def getPopularItems_def getPeakTimes_def
      getRestaurantAnalytics_def orderItem_findMany_def order_aggregate_def notCanceledOf_kept)

lemma dashboard_totals:
  "da_totalOrders (getRestaurantAnalytics_dashboard tz db rid) = int (length (notCanceledOf db rid))"
  "da_totalRevenueCents (getRestaurantAnalytics_dashboard tz db rid)
     = (\<Sum>ord\<leftarrow>notCanceledOf db rid. totalCents ord)"
  "da_averageOrderCostCents (getRestaurantAnalytics_dashboard tz db rid)
     = (if 0 < length (notCanceledOf db rid)
        then Math_round (js_div (\<Sum>ord\<leftarrow>notCanceledOf db rid. totalCents ord)
                           (int (length (notCanceledOf db rid))))
        else 0)"
  by (simp_all add: getRestaurantAnalytics_dashboard_def Let_def fold_add_sum)

lemma service_totals:
  "\<exists>r. getRestaurantAnalytics tz db rid limit = Inr r
       \<and> ra_totalOrders r = int (length (notCanceledOf db rid))
       \<and> ra_totalRevenueCents r = (\<Sum>ord\<leftarrow>notCanceledOf db rid. totalCents ord)"
proof -
  from getPeakTimes_Inr [of tz db rid] obtain pts where "getPeakTimes tz db rid = Inr pts"
    by blast
  then show ?thesis
    by (simp add: getRestaurantAnalytics_def order_aggregate_def Let_def)
qed

text \<open>
  Claim C4.  With \<open>nc\<close> the restaurant's orders that are not canceled: the dashboard
  analytics report their number as \<^verbatim>\<open>totalOrders\<close>, the sum of their totals as
  \<^verbatim>\<open>totalRevenueCents\<close>, and \<^verbatim>\<open>Math.round(totalRevenueCents / totalOrders)\<close> as
  \<^verbatim>\<open>averageOrderCostCents\<close> when there is an order, 0 otherwise (for a revenue from 0
  to below \<open>2^52\<close> cents that is the exact quotient rounded to the nearest integer, a tie
  going up); the analytics service reports the same count and revenue.  No analytics function sees a canceled order: each
  returns on the store without its canceled orders what it returns on the store itself, so a
  canceled order contributes to no total, bucket or ranking.
\<close>

theorem analytics_exclude_canceled:
  "let nc = filter (\<lambda>ord. restaurantId ord = rid \<and> status ord \<noteq> CANCELED) (orders db);
       a = getRestaurantAnalytics_dashboard tz db rid;
       kept = db\<lparr>orders := filter (\<lambda>ord. status ord \<noteq> CANCELED) (orders db)\<rparr>
   in da_totalOrders a = int (length nc)
    \<and> da_totalRevenueCents a = (\<Sum>ord\<leftarrow>nc. totalCents ord)
    \<and> da_averageOrderCostCents a
        = (if 0 < length nc
           then Math_round (js_div (\<Sum>ord\<leftarrow>nc. totalCents ord) (int (length nc))) else 0)
    \<and> (0 < length nc \<and> 0 \<le> (\<Sum>ord\<leftarrow>nc. totalCents ord)
          \<and> (\<Sum>ord\<leftarrow>nc. totalCents ord) < 2 ^ 52 \<longrightarrow>
        da_averageOrderCostCents a
          = (2 * (\<Sum>ord\<leftarrow>nc. totalCents ord) + int (length nc)) div (2 * int (length nc)))
    \<and> (\<exists>r. getRestaurantAnalytics tz db rid limit = Inr r
           \<and> ra_totalOrders r = int (length nc)
           \<and> ra_totalRevenueCents r = (\<Sum>ord\<leftarrow>nc. totalCents ord))
    \<and> getRestaurantAnalytics_dashboard tz kept rid = a
    \<and> getRestaurantAnalytics tz kept rid limit = getRestaurantAnalytics tz db rid limit
    \<and> getPopularItems kept rid limit = getPopularItems db rid limit
    \<and> getPeakTimes tz kept rid = getPeakTimes tz db rid"
  unfolding Let_def
  using dashboard_totals [of tz db rid] service_totals [of tz db rid limit]
    Math_round_js_div [of "\<Sum>ord\<leftarrow>notCanceledOf db rid. totalCents ord"
      "int (length (notCanceledOf db rid))"]
  by (simp add: analytics_kept notCanceledOf_def)

lemma ex_average: "Math_round (js_div 3000 3) = 1000"
  by code_simp

text \<open>
  The example store holds three orders of 1000, 500 and 1500 cents and a canceled order of
  5000 cents: the revenue is 3000, not 8000.
\<close>

theorem analytics_exclude_canceled_witness:
  "da_totalOrders (getRestaurantAnalytics_dashboard 0 ex_db ''rest-1'') = 3
   \<and> da_totalRevenueCents (getRestaurantAnalytics_dashboard 0 ex_db ''rest-1'') = 3000
   \<and> da_averageOrderCostCents (getRestaurantAnalytics_dashboard 0 ex_db ''rest-1'') = 1000"
  using analytics_exclude_canceled [of "''rest-1''" ex_db 0 None]
  by (simp add: Let_def ex_db_def ex_order1_def ex_order2_def ex_order3_def ex_order4_def
      ex_order_def ex_average)

subsection \<open>Grouping\<close>

lemma Map_get_group_step:
  "Map_get (group_step key init upd x m) k
     = (if key x = k then Some (case Map_get m k of Some e \<Rightarrow> upd x e | None \<Rightarrow> init x)
        else Map_get m k)"
  by (auto simp: group_step_def Map_get_Map_set split: option.splits)

lemma keys_group_step:
  "map fst (group_step key init upd x m)
     = (if key x \<in> fst ` set m then map fst m else map fst m @ [key x])"
  by (auto simp: group_step_def keys_Map_set Map_get_None_iff split: option.splits)

lemma distinct_group_fold:
  "distinct (map fst m) \<Longrightarrow> distinct (map fst (fold (group_step key init upd) xs m))"
proof (induction xs arbitrary: m)
  case Nil
  then show ?case by simp
next
  case (Cons x xs)
  have "distinct (map fst (group_step key init upd x m))"
    using Cons.prems by (simp add: keys_group_step)
  from Cons.IH [OF this] show ?case by simp
qed

lemma keys_group_fold:
  "fst ` set (fold (group_step key init upd) xs m) = fst ` set m \<union> key ` set xs"
proof (induction xs arbitrary: m)
  case Nil
  then show ?case by simp
next
  case (Cons x xs)
  have "fst ` set (group_step key init upd x m) = insert (key x) (fst ` set m)"
    using arg_cong [OF keys_group_step [of key init upd x m], of set] by (auto split: if_splits)
  with Cons.IH [of "group_step key init upd x m"] show ?case by simp
qed

lemma Map_get_group_fold:
  "Map_get (fold (group_step key init upd) xs m) k
     = (case Map_get m k of
          Some e \<Rightarrow> Some (fold upd (filter (\<lambda>x. key x = k) xs) e)
        | None \<Rightarrow>
            (case filter (\<lambda>x. key x = k) xs of
               [] \<Rightarrow> None
             | x # rest \<Rightarrow> Some (fold upd rest (init x))))"
proof (induction xs arbitrary: m)
  case Nil
  then show ?case by (simp split: option.splits)
next
  case (Cons x xs)
  show ?case
    by (simp add: Cons.IH Map_get_group_step split: option.splits)
qed

lemma group_fold_entry:
  assumes "(k, v) \<in> set (fold (group_step key init upd) xs [])"
  shows "\<exists>x rest. filter (\<lambda>x. key x = k) xs = x # rest \<and> v = fold upd rest (init x)"
proof -
  have "distinct (map fst (fold (group_step key init upd) xs []))"
    by (rule distinct_group_fold) simp
  from Map_get_distinct [OF this assms]
  show ?thesis
    by (simp add: Map_get_group_fold split: list.splits)
qed

subsection \<open>Popular items\<close>

lemma popular_step_group: "popular_step = group_step (\<lambda>r. menuItemId (snd r)) pop_init pop_upd"
  by (intro ext)
    (simp add: popular_step_def group_step_def pop_init_def pop_upd_def Let_def
      split: option.splits)

lemma Set_add_set: "set (Set_add s x) = insert x (set s)"
  by (auto simp: Set_add_def)

lemma Set_add_distinct: "distinct s \<Longrightarrow> distinct (Set_add s x)"
  by (simp add: Set_add_def)

lemma pop_upd_fold:
  "is_menuItemId (fold pop_upd rs st) = is_menuItemId st"
  "is_totalQuantity (fold pop_upd rs st) = is_totalQuantity st + (\<Sum>r\<leftarrow>rs. quantity (snd r))"
  "is_revenueCents (fold pop_upd rs st)
     = is_revenueCents st + (\<Sum>r\<leftarrow>rs. priceCents (snd r) * quantity (snd r))"
  "set (is_orderIds (fold pop_upd rs st)) = set (is_orderIds st) \<union> fst ` set rs"
  "distinct (is_orderIds st) \<Longrightarrow> distinct (is_orderIds (fold pop_upd rs st))"
  by (induction rs arbitrary: st) (simp_all add: pop_upd_def Set_add_set Set_add_distinct)

lemma sum_rows_concat:
  "(\<Sum>r\<leftarrow>filter (\<lambda>r. menuItemId (snd r) = mid)
            (concat (map (\<lambda>ord. map (\<lambda>it. (order_id ord, it)) (items ord)) ords)). f (snd r))
     = (\<Sum>ord\<leftarrow>ords. \<Sum>it\<leftarrow>filter (\<lambda>it. menuItemId it = mid) (items ord). f it)"
  by (induction ords) (simp_all add: filter_map comp_def)

lemma rows_order_ids:
  "fst ` set (filter (\<lambda>r. menuItemId (snd r) = mid) (orderItem_findMany db rid))
     = {order_id ord | ord. ord \<in> set (notCanceledOf db rid)
                        \<and> (\<exists>it \<in> set (items ord). menuItemId it = mid)}"
  by (force simp: orderItem_findMany_def)

lemma rows_keys:
  "(\<lambda>r. menuItemId (snd r)) ` set (orderItem_findMany db rid)
     = {menuItemId it | ord it. ord \<in> set (notCanceledOf db rid) \<and> it \<in> set (items ord)}"
  by (force simp: orderItem_findMany_def)

lemma popular_entry:
  assumes "(k, v) \<in> set (fold popular_step rows [])"
  shows "is_menuItemId v = k
       \<and> is_totalQuantity v = (\<Sum>r\<leftarrow>filter (\<lambda>r. menuItemId (snd r) = k) rows. quantity (snd r))
       \<and> is_revenueCents v
           = (\<Sum>r\<leftarrow>filter (\<lambda>r. menuItemId (snd r) = k) rows. priceCents (snd r) * quantity (snd r))
       \<and> set (is_orderIds v) = fst ` set (filter (\<lambda>r. menuItemId (snd r) = k) rows)
       \<and> distinct (is_orderIds v)"
proof -
  from group_fold_entry [OF assms [unfolded popular_step_group]] obtain x rest where
    rows: "filter (\<lambda>r. menuItemId (snd r) = k) rows = x # rest"
    and v: "v = fold pop_upd rest (pop_init x)"
    by blast
  have "x \<in> set (filter (\<lambda>r. menuItemId (snd r) = k) rows)"
    unfolding rows by simp
  then have kx: "menuItemId (snd x) = k" by simp
  show ?thesis
    unfolding v rows using kx by (simp add: pop_upd_fold pop_init_def)
qed

lemma Array_slice_take: "0 \<le> l \<Longrightarrow> Array_slice xs 0 (Some l) = take (nat l) xs"
  by (simp add: Array_slice_def slice_index_def min_def)

lemma sorted_desc_precedes:
  assumes "sorted_wrt (\<lambda>a b. f b \<le> (f a :: int)) xs"
    and "i < length xs" "j < length xs" "f (xs ! j) < f (xs ! i)"
  shows "i < j"
proof (rule ccontr)
  assume "\<not> i < j"
  then have "j < i \<or> j = i" by auto
  then show False
  proof
    assume "j < i"
    with assms(1,2) have "f (xs ! i) \<le> f (xs ! j)"
      by (simp add: sorted_wrt_iff_nth_less)
    with assms(4) show False by simp
  next
    assume "j = i"
    with assms(4) show False by simp
  qed
qed

text \<open>
  Claim C6.  Let \<open>nc\<close> be the restaurant's orders that are not canceled and \<open>ranking\<close> the
  full ranking computed from their items.  \<^verbatim>\<open>getPopularItems\<close> returns the first
  \<open>limit\<close> entries of the ranking (for a limit that is not negative), the first 10 when no
  limit is given.  The ranking has exactly one entry per menu item id that occurs in an
  item of \<open>nc\<close>; the entry's \<^verbatim>\<open>totalQuantity\<close> is the sum of the quantities of the items
  with that id, its \<^verbatim>\<open>orderCount\<close> the number of distinct orders that contain such an
  item, its \<^verbatim>\<open>revenueCents\<close> the sum of price times quantity of these items.  The
  ranking is in descending order of \<^verbatim>\<open>totalQuantity\<close>, so an entry with a higher total
  quantity stands before every entry with a lower one.
\<close>

theorem getPopularItems_ranking:
  assumes "0 \<le> limit"
  shows
    "let nc = filter (\<lambda>ord. restaurantId ord = rid \<and> status ord \<noteq> CANCELED) (orders db);
         ranking = popularRanking (orderItem_findMany db rid)
     in getPopularItems db rid (Some limit) = take (nat limit) ranking
      \<and> getPopularItems db rid None = take 10 ranking
      \<and> distinct (map pi_menuItemId ranking)
      \<and> set (map pi_menuItemId ranking)
          = {menuItemId it | ord it. ord \<in> set nc \<and> it \<in> set (items ord)}
      \<and> (\<forall>e \<in> set ranking.
            pi_totalQuantity e
              = (\<Sum>ord\<leftarrow>nc. \<Sum>it\<leftarrow>filter (\<lambda>it. menuItemId it = pi_menuItemId e) (items ord).
                   quantity it)
          \<and> pi_orderCount e
              = int (card {order_id ord | ord. ord \<in> set nc
                             \<and> (\<exists>it \<in> set (items ord). menuItemId it = pi_menuItemId e)})
          \<and> pi_revenueCents e
              = (\<Sum>ord\<leftarrow>nc. \<Sum>it\<leftarrow>filter (\<lambda>it. menuItemId it = pi_menuItemId e) (items ord).
                   priceCents it * quantity it))
      \<and> sorted_wrt (\<lambda>a b. pi_totalQuantity b \<le> pi_totalQuantity a) ranking
      \<and> (\<forall>i j. i < length ranking \<and> j < length ranking
              \<and> pi_totalQuantity (ranking ! j) < pi_totalQuantity (ranking ! i) \<longrightarrow> i < j)"
proof -
  let ?rows = "orderItem_findMany db rid"
  let ?im = "fold popular_step ?rows []"
  let ?items = "map (\<lambda>entry. toPopularItem (snd entry)) ?im"
  let ?ranking = "popularRanking ?rows"
  have ranking: "?ranking = sort_key (\<lambda>a. - pi_totalQuantity a) ?items"
    by (simp add: popularRanking_def)
  have ids: "map pi_menuItemId ?items = map fst ?im"
    using popular_entry [of _ _ ?rows] by (auto simp: toPopularItem_def)
  have dist: "distinct (map pi_menuItemId ?ranking)"
    unfolding ranking distinct_map set_sort distinct_sort
    using ids distinct_group_fold [of "[]" "\<lambda>r. menuItemId (snd r)" pop_init pop_upd ?rows]
    by (metis distinct.simps(1) distinct_map list.simps(8) popular_step_group)
  have "set (map pi_menuItemId ?ranking) = set (map pi_menuItemId ?items)"
    unfolding ranking by (simp del: map_map)
  also have "\<dots> = fst ` set ?im"
    unfolding ids by simp
  also have "\<dots> = (\<lambda>r. menuItemId (snd r)) ` set ?rows"
    unfolding popular_step_group keys_group_fold by simp
  finally have keys: "set (map pi_menuItemId ?ranking)
          = {menuItemId it | ord it. ord \<in> set (notCanceledOf db rid) \<and> it \<in> set (items ord)}"
    unfolding rows_keys .
  have entry: "pi_totalQuantity e
              = (\<Sum>ord\<leftarrow>notCanceledOf db rid.
                   \<Sum>it\<leftarrow>filter (\<lambda>it. menuItemId it = pi_menuItemId e) (items ord). quantity it)
          \<and> pi_orderCount e
              = int (card {order_id ord | ord. ord \<in> set (notCanceledOf db rid)
                             \<and> (\<exists>it \<in> set (items ord). menuItemId it = pi_menuItemId e)})
          \<and> pi_revenueCents e
              = (\<Sum>ord\<leftarrow>notCanceledOf db rid.
                   \<Sum>it\<leftarrow>filter (\<lambda>it. menuItemId it = pi_menuItemId e) (items ord).
                   priceCents it * quantity it)"
    if "e \<in> set ?ranking" for e
  proof -
    from that obtain k v where mem: "(k, v) \<in> set ?im" and e: "e = toPopularItem v"
      unfolding ranking by auto
    from popular_entry [OF mem] have
      id: "is_menuItemId v = k"
      and q: "is_totalQuantity v
               = (\<Sum>r\<leftarrow>filter (\<lambda>r. menuItemId (snd r) = k) ?rows. quantity (snd r))"
      and r: "is_revenueCents v
               = (\<Sum>r\<leftarrow>filter (\<lambda>r. menuItemId (snd r) = k) ?rows. priceCents (snd r) * quantity (snd r))"
      and o: "set (is_orderIds v) = fst ` set (filter (\<lambda>r. menuItemId (snd r) = k) ?rows)"
      and d: "distinct (is_orderIds v)"
      by simp_all
    have "int (length (is_orderIds v)) = int (card (set (is_orderIds v)))"
      using d by (simp add: distinct_card)
    then have cnt: "pi_orderCount e
        = int (card {order_id ord | ord. ord \<in> set (notCanceledOf db rid)
                             \<and> (\<exists>it \<in> set (items ord). menuItemId it = k)})"
      unfolding o rows_order_ids by (simp add: e toPopularItem_def)
    have "pi_totalQuantity e
        = (\<Sum>ord\<leftarrow>notCanceledOf db rid. \<Sum>it\<leftarrow>filter (\<lambda>it. menuItemId it = k) (items ord). quantity it)"
      using q sum_rows_concat [where mid = k and ords = "notCanceledOf db rid" and f = quantity]
      by (simp add: e toPopularItem_def orderItem_findMany_def)
    moreover have "pi_revenueCents e
        = (\<Sum>ord\<leftarrow>notCanceledOf db rid. \<Sum>it\<leftarrow>filter (\<lambda>it. menuItemId it = k) (items ord).
             priceCents it * quantity it)"
      using r sum_rows_concat [where mid = k and ords = "notCanceledOf db rid"
          and f = "\<lambda>it. priceCents it * quantity it"]
      by (simp add: e toPopularItem_def orderItem_findMany_def)
    moreover have "pi_menuItemId e = k"
      by (simp add: e toPopularItem_def id)
    ultimately show ?thesis using cnt by simp
  qed
  have sorted: "sorted_wrt (\<lambda>a b. pi_totalQuantity b \<le> pi_totalQuantity a) ?ranking"
    unfolding ranking by (rule sorted_desc)
  have prec: "\<forall>i j. i < length ?ranking \<and> j < length ?ranking
              \<and> pi_totalQuantity (?ranking ! j) < pi_totalQuantity (?ranking ! i) \<longrightarrow> i < j"
    using sorted_desc_precedes [OF sorted] by blast
  have "getPopularItems db rid (Some limit) = take (nat limit) ?ranking"
    using assms by (simp add: getPopularItems_def Array_slice_take)
  moreover have "getPopularItems db rid None = take 10 ?ranking"
    by (simp add: getPopularItems_def Array_slice_take)
  ultimately show ?thesis
    unfolding Let_def notCanceledOf_def [symmetric]
    using dist keys entry sorted prec by blast
qed

text \<open>
  On the specification's example B (quantity 10, one order) is ranked before A (quantity 5,
  two orders), both with a revenue of 5000 cents.
\<close>

lemma ex_popular_ranking:
  "popularRanking (orderItem_findMany ex_popular_db ''rest-1'')
     = [\<lparr>pi_menuItemId = ''item-b'', pi_menuItemName = ''Soda'', pi_totalQuantity = 10,
          pi_orderCount = 1, pi_revenueCents = 5000\<rparr>,
        \<lparr>pi_menuItemId = ''item-a'', pi_menuItemName = ''Wrap'', pi_totalQuantity = 5,
          pi_orderCount = 2, pi_revenueCents = 5000\<rparr>]"
  by (simp add: popularRanking_def orderItem_findMany_def notCanceledOf_def ex_popular_db_def
      ex_order_def ex_item_def popular_step_def toPopularItem_def Set_add_def Let_def)

theorem getPopularItems_ranking_witness:
  "getPopularItems ex_popular_db ''rest-1'' (Some 1)
     = [\<lparr>pi_menuItemId = ''item-b'', pi_menuItemName = ''Soda'', pi_totalQuantity = 10,
          pi_orderCount = 1, pi_revenueCents = 5000\<rparr>]
   \<and> getPopularItems ex_popular_db ''rest-1'' None
     = [\<lparr>pi_menuItemId = ''item-b'', pi_menuItemName = ''Soda'', pi_totalQuantity = 10,
          pi_orderCount = 1, pi_revenueCents = 5000\<rparr>,
        \<lparr>pi_menuItemId = ''item-a'', pi_menuItemName = ''Wrap'', pi_totalQuantity = 5,
          pi_orderCount = 2, pi_revenueCents = 5000\<rparr>]"
proof -
  have "(0::int) \<le> 1" by simp
  from getPopularItems_ranking [OF this, of "''rest-1''" ex_popular_db]
  show ?thesis
    by (simp add: Let_def ex_popular_ranking)
qed

subsection \<open>Daily and weekly rollups\<close>

text \<open>
  What the rollups compute, for any key function: one bucket per key, with the number of
  the orders of that key, the sum of their totals and
  \<^verbatim>\<open>Math.round(revenue / count)\<close>; the buckets in ascending order of the key; of these
  the last 30 (days) or the last 12 (weeks).
\<close>

lemma bucket_step_group:
  "bucket_step keyOf = group_step (\<lambda>ord. keyOf (createdAt ord)) bucket_init bucket_upd"
  by (intro ext)
    (simp add: bucket_step_def group_step_def bucket_init_def bucket_upd_def Let_def
      split: option.splits)

lemma bucket_upd_fold:
  "fold bucket_upd rest e
     = (fst e + int (length rest), snd e + (\<Sum>ord\<leftarrow>rest. totalCents ord))"
  by (induction rest arbitrary: e) (simp_all add: bucket_upd_def)

lemma rollup_entry:
  assumes "ts \<in> set (rollup keyOf ords)"
  shows "ts_orderCount ts
           = int (length (filter (\<lambda>ord. keyOf (createdAt ord) = ts_date ts) ords))
       \<and> ts_totalRevenueCents ts
           = (\<Sum>ord\<leftarrow>filter (\<lambda>ord. keyOf (createdAt ord) = ts_date ts) ords. totalCents ord)
       \<and> ts_averageOrderValueCents ts
           = Math_round (js_div (ts_totalRevenueCents ts) (ts_orderCount ts))
       \<and> 0 < ts_orderCount ts"
proof -
  from assms obtain k c r where
    mem: "(k, c, r) \<in> set (fold (bucket_step keyOf) ords [])"
    and ts: "ts = toTimeBasedStats (k, c, r)"
    by (auto simp: rollup_def)
  from group_fold_entry [OF mem [unfolded bucket_step_group]] obtain x rest where
    rows: "filter (\<lambda>ord. keyOf (createdAt ord) = k) ords = x # rest"
    and v: "(c, r) = fold bucket_upd rest (bucket_init x)"
    by blast
  from v have "c = 1 + int (length rest)" "r = totalCents x + (\<Sum>ord\<leftarrow>rest. totalCents ord)"
    by (simp_all add: bucket_upd_fold bucket_init_def)
  then show ?thesis
    by (simp add: ts toTimeBasedStats_def rows)
qed

lemma rollup_keys:
  "distinct (map ts_date (rollup keyOf ords))"
  "set (map ts_date (rollup keyOf ords)) = (\<lambda>ord. keyOf (createdAt ord)) ` set ords"
proof -
  let ?m = "fold (bucket_step keyOf) ords []"
  have dates: "map ts_date (map toTimeBasedStats ?m) = map fst ?m"
    by (auto simp: toTimeBasedStats_def)
  have "distinct (map fst ?m)"
    unfolding bucket_step_group by (rule distinct_group_fold) simp
  then show "distinct (map ts_date (rollup keyOf ords))"
    unfolding rollup_def distinct_map_sort_key dates .
  have "set (map ts_date (rollup keyOf ords)) = set (map ts_date (map toTimeBasedStats ?m))"
    unfolding rollup_def by (simp del: map_map)
  also have "\<dots> = fst ` set ?m"
    unfolding dates by simp
  also have "\<dots> = (\<lambda>ord. keyOf (createdAt ord)) ` set ords"
    unfolding bucket_step_group keys_group_fold by simp
  finally show "set (map ts_date (rollup keyOf ords)) = (\<lambda>ord. keyOf (createdAt ord)) ` set ords" .
qed

lemma rollup_sorted: "sorted (map ts_date (rollup keyOf ords))"
  unfolding rollup_def by (rule sorted_sort_key)

lemma Array_slice_last:
  assumes "0 < n"
  shows "Array_slice xs (- int n) None = drop (length xs - n) xs"
proof -
  have "nat (max (int (length xs) - int n) 0) = length xs - n"
    by (cases "n \<le> length xs") (simp_all add: nat_diff_distrib')
  then show ?thesis
    using assms by (simp add: Array_slice_def slice_index_def Let_def)
qed

lemma ordersByDay_last: "ordersByDay ords = drop (length (rollup isoDate ords) - 30) (rollup isoDate ords)"
  using Array_slice_last [of 30 "rollup isoDate ords"] by (simp add: ordersByDay_def)

lemma ordersByWeek_last:
  "ordersByWeek tz ords = drop (length (rollup (weekKey tz) ords) - 12) (rollup (weekKey tz) ords)"
  using Array_slice_last [of 12 "rollup (weekKey tz) ords"] by (simp add: ordersByWeek_def)

lemma rollup_average_exact:
  assumes "ts \<in> set (rollup keyOf ords)"
    and "0 \<le> ts_totalRevenueCents ts" "ts_totalRevenueCents ts < 2 ^ 52"
  shows "ts_averageOrderValueCents ts
           = (2 * ts_totalRevenueCents ts + ts_orderCount ts) div (2 * ts_orderCount ts)"
proof -
  from rollup_entry [OF assms(1)]
  have avg: "ts_averageOrderValueCents ts
               = Math_round (js_div (ts_totalRevenueCents ts) (ts_orderCount ts))"
    and pos: "0 < ts_orderCount ts"
    by blast+
  show ?thesis
    unfolding avg by (rule Math_round_js_div [OF assms(2,3) pos])
qed

text \<open>
  The week key is the UTC date of the instant that lies \<^verbatim>\<open>getDay()\<close> local days before
  the order.  When the server's local time is UTC this is the date of the Sunday that
  starts the order's week.
\<close>

lemma weekKey_offset:
  "weekKey tz t = isoDate (t - Date_getDay tz t * msPerDay)"
  by (simp add: weekKey_def Date_setDate_def algebra_simps)

lemma weekKey_utc_sunday:
  "weekKey 0 t = isoDate (t - weekDay (t div msPerDay) * msPerDay)"
  "weekDay ((t - weekDay (t div msPerDay) * msPerDay) div msPerDay) = 0"
proof -
  show "weekKey 0 t = isoDate (t - weekDay (t div msPerDay) * msPerDay)"
    by (simp add: weekKey_offset Date_getDay_def localTime_def)
  have shift: "(t - weekDay (t div msPerDay) * msPerDay) div msPerDay
          = t div msPerDay - weekDay (t div msPerDay)"
    by (simp add: msPerDay_def)
  have "weekDay (d - weekDay d) = 0" for d
    unfolding weekDay_def by presburger
  then show "weekDay ((t - weekDay (t div msPerDay) * msPerDay) div msPerDay) = 0"
    unfolding shift .
qed

text \<open>
  On the example store, in UTC: the day 2024-01-04 has two orders totalling 1500 cents and
  reports an average of 750; all three orders fall in the week of Sunday 2023-12-31.
\<close>

lemma ex_ordersByDay: "da_ordersByDay (getRestaurantAnalytics_dashboard (- 420) ex_db ''rest-1'')
     = [\<lparr>ts_date = ''2024-01-03'', ts_orderCount = 1, ts_totalRevenueCents = 1500,
          ts_averageOrderValueCents = 1500\<rparr>,
        \<lparr>ts_date = ''2024-01-04'', ts_orderCount = 2, ts_totalRevenueCents = 1500,
          ts_averageOrderValueCents = 750\<rparr>]"
  by code_simp

lemma ex_ordersByWeek_utc: "da_ordersByWeek (getRestaurantAnalytics_dashboard 0 ex_db ''rest-1'')
     = [\<lparr>ts_date = ''2023-12-31'', ts_orderCount = 3, ts_totalRevenueCents = 3000,
          ts_averageOrderValueCents = 1000\<rparr>]"
  by code_simp

text \<open>
  Claim C7 fails on the code where the server's local time is not UTC.  With local time
  seven hours behind UTC, the example orders were all placed on Wednesday 2024-01-03 local
  time (at 10:00, 20:00 and 20:30).  \<^verbatim>\<open>setDate(getDate() - getDay())\<close> moves each to
  Sunday 2023-12-31 at the same local time, and \<^verbatim>\<open>toISOString\<close> renders that instant in
  UTC: the two evening orders get the key 2024-01-01, a Monday (day number 19723), and the
  three orders of one week are reported as two weeks.
\<close>

theorem ordersByWeek_not_sunday_aligned:
  "da_ordersByWeek (getRestaurantAnalytics_dashboard (- 420) ex_db ''rest-1'')
     = [\<lparr>ts_date = ''2023-12-31'', ts_orderCount = 1, ts_totalRevenueCents = 1500,
          ts_averageOrderValueCents = 1500\<rparr>,
        \<lparr>ts_date = ''2024-01-01'', ts_orderCount = 2, ts_totalRevenueCents = 1500,
          ts_averageOrderValueCents = 750\<rparr>]
   \<and> isoDate (19723 * msPerDay) = ''2024-01-01''
   \<and> weekDay 19723 = 1"
  by code_simp

subsection \<open>The top-five hours of the dashboard\<close>

text \<open>
  The dashboard variant keeps a count only for the hours in which an order was placed and
  returns at most five of them, in descending order of the count; on no orders it returns
  no entry.
\<close>

lemma peakOrderingHours_top:
  "length (peakOrderingHours tz ords) \<le> 5"
  "sorted_wrt (\<lambda>a b. snd b \<le> snd a) (peakOrderingHours tz ords)"
proof -
  let ?all = "sort_key (\<lambda>a. - snd a) (fold (hourCounts_step tz) ords [])"
  have top: "peakOrderingHours tz ords = take 5 ?all"
    using Array_slice_take [of 5 ?all] by (simp add: peakOrderingHours_def)
  show "length (peakOrderingHours tz ords) \<le> 5"
    by (simp add: top)
  have "sorted_wrt (\<lambda>a b. snd b \<le> snd a) ?all"
    by (rule sorted_desc)
  then show "sorted_wrt (\<lambda>a b. snd b \<le> snd a) (peakOrderingHours tz ords)"
    unfolding top by (rule sorted_wrt_take)
qed

lemma peakOrderingHours_empty: "peakOrderingHours tz [] = []"
  by (simp add: peakOrderingHours_def Array_slice_def slice_index_def)

text \<open>
  So the dashboard does not return 24 entries: for a restaurant without orders its list of
  peak hours is empty, and for the example store (orders that are not canceled at 3, 3 and
  17 o'clock) it has the two entries of the hours 3 and 17, a count each and no revenue.
\<close>

theorem peakOrderingHours_sparse:
  "da_peakOrderingHours (getRestaurantAnalytics_dashboard 0 empty_db ''rest-1'') = []
   \<and> da_peakOrderingHours (getRestaurantAnalytics_dashboard 0 ex_db ''rest-1'')
       = [(3, 2), (17, 1)]
   \<and> length (da_peakOrderingHours (getRestaurantAnalytics_dashboard 0 ex_db ''rest-1'')) \<noteq> 24"
  by code_simp

end
